theory Spec2Isabelle
  imports Complex_Main "HOL-Library.Multiset"
begin


section \<open>NHL Stats Analyzer: the stat-derivation engine of app.py\<close>

text \<open>
  Numbers: the feed's counts are Python integers and every derived value is a float.
  Both are modelled as exact rationals (\<open>rat\<close>), so rounding and overflow of floats are
  not part of this model. Strings are ASCII texts (\<open>char list\<close>).
  Exceptions of the source are values of \<open>error\<close>; a computation that may raise
  returns \<open>error + 'a\<close> with \<open>Inl\<close> for the exception.
\<close>

datatype error =
    KeyError string
  | ValueError
  | ZeroDivisionError
  | OverflowError
  | StopIteration

subsection \<open>Helper functions (app.py, lines 56-63)\<close>

text \<open>
  \<open>str.split(sep)\<close> for a one-character separator: the pieces between the occurrences of
  the separator, the empty string giving one empty piece.
\<close>

fun split_on :: "char \<Rightarrow> string \<Rightarrow> string list" where
  "split_on c [] = [[]]"
| "split_on c (x # xs) =
     (if x = c then [] # split_on c xs
      else (case split_on c xs of
              [] \<Rightarrow> [[x]]
            | w # ws \<Rightarrow> (x # w) # ws))"

text \<open>
  Python's \<open>int(s)\<close> on an ASCII string: white space around the literal is dropped (tab,
  line feed, vertical tab, form feed, carriage return and space, no other character), one
  sign may lead, then decimal digits follow, where single underscores may stand between
  two digits. A literal of more than 4300 digits is refused (the default of
  \<open>sys.get_int_max_str_digits()\<close>). Anything else raises ValueError (here \<open>None\<close>).
  On a string with characters beyond ASCII \<open>int\<close> also reads other scripts' digits and
  spaces; such strings are outside this model.
\<close>

definition is_space :: "char \<Rightarrow> bool" where
  "is_space c = (c \<in> set [CHR 0x09, CHR 0x0A, CHR 0x0B, CHR 0x0C, CHR 0x0D, CHR 0x20])"

definition is_digit :: "char \<Rightarrow> bool" where
  "is_digit c = (c \<in> set ''0123456789'')"

definition digit_val :: "char \<Rightarrow> nat" where
  "digit_val c = of_char c - 48"

definition strip :: "string \<Rightarrow> string" where
  "strip s = rev (dropWhile is_space (rev (dropWhile is_space s)))"

fun read_digits :: "nat \<Rightarrow> string \<Rightarrow> nat option" where
  "read_digits acc [] = Some acc"
| "read_digits acc (c # cs) =
     (if is_digit c then read_digits (10 * acc + digit_val c) cs
      else if c = CHR ''_'' then
        (case cs of
           [] \<Rightarrow> None
         | d # ds \<Rightarrow> if is_digit d then read_digits (10 * acc + digit_val d) ds else None)
      else None)"

definition max_str_digits :: nat where
  "max_str_digits = 4300"

definition unsigned_int :: "string \<Rightarrow> nat option" where
  "unsigned_int s =
     (case s of
        [] \<Rightarrow> None
      | c # cs \<Rightarrow>
          if is_digit c \<and> length (filter is_digit s) \<le> max_str_digits
          then read_digits (digit_val c) cs else None)"

definition py_int :: "string \<Rightarrow> int option" where
  "py_int s =
     (case strip s of
        [] \<Rightarrow> None
      | c # cs \<Rightarrow>
          if c = CHR ''-'' then map_option (\<lambda>n. - int n) (unsigned_int cs)
          else if c = CHR ''+'' then map_option int (unsigned_int cs)
          else map_option int (unsigned_int (c # cs)))"

text \<open>
  An integer can be converted to a float when it rounds to a finite double, that is when
  its magnitude is below \<open>2^1024 - 2^970\<close>; otherwise the conversion raises OverflowError.
\<close>

definition float_convertible :: "int \<Rightarrow> bool" where
  "float_convertible n = (\<bar>n\<bar> < 2 ^ 1024 - 2 ^ 970)"

text \<open>
  The body of the \<open>try\<close> block of \<open>parse_toi\<close>:
  \<open>mm, ss = map(int, toi_str.split(':'))\<close> raises unless the split has exactly two
  pieces and \<open>int\<close> accepts both; then \<open>mm + (ss / 60.0)\<close> is returned, which converts
  both integers to floats. (Where the float sum itself passes the largest double, Python
  gives inf; the exact sum stands for it here.)
\<close>

definition toi_minutes :: "string \<Rightarrow> error + rat" where
  "toi_minutes s =
     (case map py_int (split_on CHR '':'' s) of
        [Some mm, Some ss] \<Rightarrow>
          if float_convertible mm \<and> float_convertible ss
          then Inr (of_int mm + of_int ss / 60)
          else Inl OverflowError
      | _ \<Rightarrow> Inl ValueError)"

text \<open>
  \<open>parse_toi\<close>: the argument is a string, or a missing value (\<open>None\<close>: Python's None,
  which is falsy, or the NaN of a DataFrame cell, on which \<open>split\<close> raises). The bare
  \<open>except\<close> turns every exception into 0.0.
\<close>

definition parse_toi :: "string option \<Rightarrow> rat" where
  "parse_toi toi_str =
     (case toi_str of
        None \<Rightarrow> 0
      | Some s \<Rightarrow>
          if s = [] then 0
          else (case toi_minutes s of Inl e \<Rightarrow> 0 | Inr v \<Rightarrow> v))"

subsection \<open>The raw game log and the DataFrame built from it (lines 236-250)\<close>

text \<open>
  One record of the feed's \<open>gameLog\<close> list is a JSON object in which any key may be
  absent. \<open>gameDate\<close> holds the instant that \<open>pd.to_datetime\<close> reads from the record's
  date string, the clock fields hold the feed's strings, and \<open>numeric\<close> is the
  dictionary of the integer fields present in the record, keyed by field name.
\<close>

type_synonym timestamp = int

record raw_game =
  gameDate :: "timestamp option"
  toi :: "string option"
  powerPlayToi :: "string option"
  shorthandedToi :: "string option"
  numeric :: "(string \<times> int) list"

text \<open>
  What \<open>get_game_log\<close> hands back: \<open>NoResponse\<close> is None (the request raised) or any
  falsy JSON value, \<open>NoGameLog\<close> a response without the key \<open>gameLog\<close>.
\<close>

datatype fetched = NoResponse | NoGameLog | GameLog "raw_game list"

text \<open>
  \<open>pd.DataFrame(records)\<close> has a column for every key that occurs in some record; a record
  without the key holds NaN in that column. A frame built from no records has no columns.
\<close>

definition has_column :: "(raw_game \<Rightarrow> 'a option) \<Rightarrow> raw_game list \<Rightarrow> bool" where
  "has_column key recs = list_ex (\<lambda>r. key r \<noteq> None) recs"

definition numeric_field :: "string \<Rightarrow> raw_game \<Rightarrow> int option" where
  "numeric_field col r = map_of (numeric r) col"

text \<open>
  A row of the frame after line 250. The numeric cells have type \<open>'n\<close>: \<open>rat option\<close> for
  a frame as pandas builds it (\<open>None\<close> is NaN), \<open>rat\<close> for a frame without NaN.
  \<open>date_obj = None\<close> is NaT.
\<close>

record 'n row =
  date_obj :: "timestamp option"
  game_number :: nat
  toi_val :: rat
  pp_toi_val :: rat
  sh_toi_val :: rat
  goals :: 'n
  assists :: 'n
  points :: 'n
  shots :: 'n
  plusMinus :: 'n
  powerPlayPoints :: 'n
  shorthandedPoints :: 'n
  powerPlayGoals :: 'n
  shorthandedGoals :: 'n

text \<open>
  \<open>df.sort_values('date_obj')\<close>: ascending, NaT last. The library's default sort is not
  promised to be stable; \<open>sort_key\<close> is one sort that meets its contract (a sorted
  permutation), and nothing below relies on the order among equal dates.
\<close>

definition sort_values :: "raw_game list \<Rightarrow> raw_game list" where
  "sort_values recs =
     sort_key (\<lambda>r. the (gameDate r)) (filter (\<lambda>r. gameDate r \<noteq> None) recs)
     @ filter (\<lambda>r. gameDate r = None) recs"

text \<open>
  \<open>df.get(col, pd.Series(['00:00'] * len(df)))\<close>: the column when the frame has it (NaN
  where the record lacks the key), else a column of the default.
\<close>

definition clock_cell :: "(raw_game \<Rightarrow> string option) \<Rightarrow> raw_game list \<Rightarrow> raw_game \<Rightarrow> string option" where
  "clock_cell key recs r = (if has_column key recs then key r else Some ''00:00'')"

text \<open>
  Lines 248-250: \<open>if col not in df.columns: df[col] = 0\<close>; a column that exists keeps its
  cells, NaN included.
\<close>

definition numeric_cell :: "string \<Rightarrow> raw_game list \<Rightarrow> raw_game \<Rightarrow> rat option" where
  "numeric_cell col recs r =
     (if has_column (numeric_field col) recs then map_option of_int (numeric_field col r)
      else Some 0)"

definition make_row :: "raw_game list \<Rightarrow> nat \<times> raw_game \<Rightarrow> rat option row" where
  "make_row recs ir =
     (case ir of (i, r) \<Rightarrow>
       \<lparr> date_obj = gameDate r,
         game_number = i + 1,
         toi_val = parse_toi (toi r),
         pp_toi_val = parse_toi (clock_cell powerPlayToi recs r),
         sh_toi_val = parse_toi (clock_cell shorthandedToi recs r),
         goals = numeric_cell ''goals'' recs r,
         assists = numeric_cell ''assists'' recs r,
         points = numeric_cell ''points'' recs r,
         shots = numeric_cell ''shots'' recs r,
         plusMinus = numeric_cell ''plusMinus'' recs r,
         powerPlayPoints = numeric_cell ''powerPlayPoints'' recs r,
         shorthandedPoints = numeric_cell ''shorthandedPoints'' recs r,
         powerPlayGoals = numeric_cell ''powerPlayGoals'' recs r,
         shorthandedGoals = numeric_cell ''shorthandedGoals'' recs r \<rparr>)"

text \<open>
  Lines 239-250. \<open>df['gameDate']\<close> (line 240) and \<open>df['toi']\<close> (line 244) raise KeyError
  when the frame has no such column; \<open>game_number\<close> is the position after sorting, plus one.
\<close>

definition normalize_log :: "raw_game list \<Rightarrow> error + rat option row list" where
  "normalize_log recs =
     (if \<not> has_column gameDate recs then Inl (KeyError ''gameDate'')
      else if \<not> has_column toi recs then Inl (KeyError ''toi'')
      else Inr (map (make_row recs) (enumerate 0 (sort_values recs))))"

text \<open>
  Line 238: a selection contributes a frame only if \<open>log and 'gameLog' in log\<close>;
  otherwise it is passed over (\<open>None\<close>).
\<close>

definition load_frame :: "fetched \<Rightarrow> error + rat option row list option" where
  "load_frame response =
     (case response of
        NoResponse \<Rightarrow> Inr None
      | NoGameLog \<Rightarrow> Inr None
      | GameLog records \<Rightarrow>
          (case normalize_log records of Inl e \<Rightarrow> Inl e | Inr df \<Rightarrow> Inr (Some df)))"

text \<open>
  The loop over the selections (line 235), as far as the frames go: a raise ends the
  whole run, a selection passed over adds nothing.
\<close>

fun load_frames :: "fetched list \<Rightarrow> error + rat option row list list" where
  "load_frames [] = Inr []"
| "load_frames (response # responses) =
     (case load_frame response of
        Inl e \<Rightarrow> Inl e
      | Inr None \<Rightarrow> load_frames responses
      | Inr (Some df) \<Rightarrow>
          (case load_frames responses of Inl e \<Rightarrow> Inl e | Inr dfs \<Rightarrow> Inr (df # dfs)))"

text \<open>
  The aggregation code below is modelled on frames whose numeric cells all hold numbers.
  \<open>numbers_of\<close> reads such a frame; it yields \<open>None\<close> for a frame that holds a NaN, whose
  arithmetic is not modelled.
\<close>

definition no_nan :: "rat option row \<Rightarrow> bool" where
  "no_nan r = (goals r \<noteq> None \<and> assists r \<noteq> None \<and> points r \<noteq> None \<and> shots r \<noteq> None
     \<and> plusMinus r \<noteq> None \<and> powerPlayPoints r \<noteq> None \<and> shorthandedPoints r \<noteq> None
     \<and> powerPlayGoals r \<noteq> None \<and> shorthandedGoals r \<noteq> None)"

definition number_row :: "rat option row \<Rightarrow> rat row" where
  "number_row r =
     \<lparr> date_obj = date_obj r,
       game_number = game_number r,
       toi_val = toi_val r,
       pp_toi_val = pp_toi_val r,
       sh_toi_val = sh_toi_val r,
       goals = the (goals r),
       assists = the (assists r),
       points = the (points r),
       shots = the (shots r),
       plusMinus = the (plusMinus r),
       powerPlayPoints = the (powerPlayPoints r),
       shorthandedPoints = the (shorthandedPoints r),
       powerPlayGoals = the (powerPlayGoals r),
       shorthandedGoals = the (shorthandedGoals r) \<rparr>"

definition numbers_of :: "rat option row list \<Rightarrow> rat row list option" where
  "numbers_of df = (if list_all no_nan df then Some (map number_row df) else None)"

subsection \<open>Modes and metrics (lines 20-46, 212-214)\<close>

datatype mode = Cumulative | Projection | Distribution

definition METRIC_OPTIONS :: "mode \<Rightarrow> string list" where
  "METRIC_OPTIONS mode_key =
     (case mode_key of
        Cumulative \<Rightarrow>
          [''points'', ''goals'', ''assists'', ''shots'', ''plusMinus'', ''evenStrengthPoints'']
      | Projection \<Rightarrow>
          [''points'', ''goals'', ''assists'', ''shots'', ''shootingPct'', ''toi'', ''esToi'',
           ''evenStrengthPct'', ''plusMinus'']
      | Distribution \<Rightarrow>
          [''pointsComp'', ''pointsSit'', ''goalsSit'', ''assistsSit''])"

text \<open>
  The labels of the select box, in the order of the dictionary (lines 218-219), and
  \<open>selected_metric_id\<close>, the id of the chosen label (line 222):
  \<open>next(k for k, v in options.items() if v['label'] == selected_label)\<close>, which raises
  StopIteration when no label matches.
\<close>

definition METRIC_LABELS :: "mode \<Rightarrow> (string \<times> string) list" where
  "METRIC_LABELS mode_key =
     (case mode_key of
        Cumulative \<Rightarrow>
          [(''points'', ''Points''), (''goals'', ''Goals''), (''assists'', ''Assists''),
           (''shots'', ''Shots on Goal''), (''plusMinus'', ''Plus/Minus''),
           (''evenStrengthPoints'', ''Even Strength Points'')]
      | Projection \<Rightarrow>
          [(''points'', ''Points''), (''goals'', ''Goals''), (''assists'', ''Assists''),
           (''shots'', ''Shots Per Game''), (''shootingPct'', ''Shooting %''),
           (''toi'', ''Avg Time On Ice''), (''esToi'', ''Avg Even Strength TOI''),
           (''evenStrengthPct'', ''Even Strength % of Prod''), (''plusMinus'', ''Plus/Minus'')]
      | Distribution \<Rightarrow>
          [(''pointsComp'', ''Points (Goals vs Assists)''),
           (''pointsSit'', ''Points Situation (ES/PP/SH)''),
           (''goalsSit'', ''Goals Situation (ES/PP/SH)''),
           (''assistsSit'', ''Assists Situation (ES/PP/SH)'')])"

definition metric_id_of_label :: "mode \<Rightarrow> string \<Rightarrow> error + string" where
  "metric_id_of_label mode_key selected_label =
     (case filter (\<lambda>kv. snd kv = selected_label) (METRIC_LABELS mode_key) of
        [] \<Rightarrow> Inl StopIteration
      | kv # _ \<Rightarrow> Inr (fst kv))"

subsection \<open>Cumulative and projection series (lines 286-373)\<close>

text \<open>Lines 288-299: the per-game scalar; \<open>val = 0\<close> stays when no branch knows the metric.\<close>

definition stat_val :: "string \<Rightarrow> rat row \<Rightarrow> rat" where
  "stat_val selected_metric_id r =
     (if selected_metric_id = ''points'' then points r
      else if selected_metric_id = ''goals'' then goals r
      else if selected_metric_id = ''assists'' then assists r
      else if selected_metric_id = ''plusMinus'' then plusMinus r
      else if selected_metric_id = ''shots'' then shots r
      else if selected_metric_id = ''toi'' then toi_val r
      else if selected_metric_id = ''esToi'' then max 0 (toi_val r - pp_toi_val r - sh_toi_val r)
      else if selected_metric_id = ''evenStrengthPoints''
        then points r - (powerPlayPoints r + shorthandedPoints r)
      else 0)"

text \<open>\<open>Series.cumsum()\<close>: the running total, one entry per row.\<close>

fun cumsum_from :: "rat \<Rightarrow> rat list \<Rightarrow> rat list" where
  "cumsum_from acc [] = []"
| "cumsum_from acc (x # xs) = (acc + x) # cumsum_from (acc + x) xs"

definition cumsum :: "rat list \<Rightarrow> rat list" where
  "cumsum xs = cumsum_from 0 xs"

text \<open>
  Division: Python raises ZeroDivisionError on a zero divisor (numpy scalars warn and give
  inf or nan instead). The model makes a zero divisor an outcome of its own, so that its
  absence can be stated; HOL's own \<open>x / 0\<close> is 0.
\<close>

definition checked_div :: "rat \<Rightarrow> rat \<Rightarrow> error + rat" where
  "checked_div a b = (if b = 0 then Inl ZeroDivisionError else Inr (a / b))"

text \<open>The columns that the loop of lines 311-332 reads from each row (lines 303-307).\<close>

record cum_row =
  gp :: nat
  cum_val :: rat
  cum_goals :: rat
  cum_shots :: rat
  cum_points :: rat
  cum_pp_sh_pts :: rat

definition cum_rows :: "string \<Rightarrow> rat row list \<Rightarrow> cum_row list" where
  "cum_rows selected_metric_id df =
     map (\<lambda>i. \<lparr> gp = game_number (df ! i),
                cum_val = cumsum (map (stat_val selected_metric_id) df) ! i,
                cum_goals = cumsum (map goals df) ! i,
                cum_shots = cumsum (map shots df) ! i,
                cum_points = cumsum (map points df) ! i,
                cum_pp_sh_pts = cumsum (map (\<lambda>r. powerPlayPoints r + shorthandedPoints r) df) ! i \<rparr>)
       [0..<length df]"

definition is_rate :: "string \<Rightarrow> bool" where
  "is_rate selected_metric_id =
     (selected_metric_id \<in> set [''shootingPct'', ''evenStrengthPct'', ''toi'', ''esToi'', ''shots''])"

text \<open>Lines 312-330: one value of \<open>y_values\<close>.\<close>

definition y_res :: "mode \<Rightarrow> string \<Rightarrow> cum_row \<Rightarrow> error + rat" where
  "y_res mode_key selected_metric_id row =
     (if selected_metric_id = ''shootingPct'' then
        (if cum_shots row > 0 then
           (case checked_div (cum_goals row) (cum_shots row) of
              Inl e \<Rightarrow> Inl e | Inr q \<Rightarrow> Inr (q * 100))
         else Inr 0)
      else if selected_metric_id = ''evenStrengthPct'' then
        (if cum_points row > 0 then
           (case checked_div (cum_points row - cum_pp_sh_pts row) (cum_points row) of
              Inl e \<Rightarrow> Inl e | Inr q \<Rightarrow> Inr (q * 100))
         else Inr 0)
      else if selected_metric_id \<in> set [''toi'', ''esToi''] then
        checked_div (cum_val row) (of_nat (gp row))
      else if selected_metric_id = ''shots'' \<and> mode_key = Projection then
        checked_div (cum_val row) (of_nat (gp row))
      else Inr (cum_val row))"

definition y_value :: "mode \<Rightarrow> string \<Rightarrow> cum_row \<Rightarrow> error + rat" where
  "y_value mode_key selected_metric_id row =
     (case y_res mode_key selected_metric_id row of
        Inl e \<Rightarrow> Inl e
      | Inr res \<Rightarrow>
          if mode_key = Projection \<and> \<not> is_rate selected_metric_id then
            (case checked_div res (of_nat (gp row)) of
               Inl e \<Rightarrow> Inl e | Inr q \<Rightarrow> Inr (q * 82))
          else Inr res)"

text \<open>A loop that appends one result per step and ends at the first raise.\<close>

fun collect :: "(error + 'a) list \<Rightarrow> error + 'a list" where
  "collect [] = Inr []"
| "collect (x # xs) =
     (case x of
        Inl e \<Rightarrow> Inl e
      | Inr v \<Rightarrow> (case collect xs of Inl e \<Rightarrow> Inl e | Inr vs \<Rightarrow> Inr (v # vs)))"

definition y_values :: "mode \<Rightarrow> string \<Rightarrow> rat row list \<Rightarrow> error + rat list" where
  "y_values mode_key selected_metric_id df =
     collect (map (y_value mode_key selected_metric_id) (cum_rows selected_metric_id df))"

text \<open>\<open>df.iloc[a : b]\<close> for \<open>0 \<le> a\<close>: the rows at positions \<open>a\<close> up to \<open>b - 1\<close>.\<close>

definition iloc :: "nat \<Rightarrow> nat \<Rightarrow> 'a list \<Rightarrow> 'a list" where
  "iloc a b df = take (b - a) (drop a df)"

text \<open>Lines 346-369: the rolling value of one window; the divisor 10 is a literal.\<close>

definition roll_value :: "string \<Rightarrow> rat row list \<Rightarrow> error + rat" where
  "roll_value selected_metric_id slice_df =
     (let s_val = sum_list (map (stat_val selected_metric_id) slice_df);
          s_goals = sum_list (map goals slice_df);
          s_shots = sum_list (map shots slice_df);
          s_pts = sum_list (map points slice_df);
          s_spec = sum_list (map powerPlayPoints slice_df)
                   + sum_list (map shorthandedPoints slice_df)
      in case
           (if selected_metric_id = ''shootingPct'' then
              (if s_shots > 0 then
                 (case checked_div s_goals s_shots of
                    Inl e \<Rightarrow> Inl e | Inr q \<Rightarrow> Inr (q * 100))
               else Inr 0)
            else if selected_metric_id = ''evenStrengthPct'' then
              (if s_pts > 0 then
                 (case checked_div (s_pts - s_spec) s_pts of
                    Inl e \<Rightarrow> Inl e | Inr q \<Rightarrow> Inr (q * 100))
               else Inr 0)
            else if selected_metric_id \<in> set [''toi'', ''esToi''] then Inr (s_val / 10)
            else if selected_metric_id = ''shots'' then Inr (s_val / 10)
            else Inr s_val)
         of
           Inl e \<Rightarrow> Inl e
         | Inr r_res \<Rightarrow>
             if \<not> is_rate selected_metric_id then Inr ((r_res / 10) * 82) else Inr r_res)"

text \<open>Lines 340-371: \<open>None\<close> for the first nine rows, then the value of the trailing window.\<close>

definition roll_y :: "string \<Rightarrow> rat row list \<Rightarrow> error + rat option list" where
  "roll_y selected_metric_id df =
     collect (map (\<lambda>idx. if idx < 9 then Inr None
                         else (case roll_value selected_metric_id (iloc (idx - 9) (idx + 1) df) of
                                 Inl e \<Rightarrow> Inl e | Inr r_final \<Rightarrow> Inr (Some r_final)))
                  [0..<length df])"

text \<open>
  What is plotted for one selection (lines 413-430): \<open>game_number\<close> against \<open>y_final\<close>,
  and against \<open>y_rolling\<close>, a column that exists in projection mode only.
\<close>

record series =
  x_game_number :: "nat list"
  y_final :: "rat list"
  y_rolling :: "rat option list option"

definition build_series :: "mode \<Rightarrow> string \<Rightarrow> rat row list \<Rightarrow> error + series" where
  "build_series mode_key selected_metric_id df =
     (case y_values mode_key selected_metric_id df of
        Inl e \<Rightarrow> Inl e
      | Inr ys \<Rightarrow>
          if mode_key = Projection then
            (case roll_y selected_metric_id df of
               Inl e \<Rightarrow> Inl e
             | Inr rs \<Rightarrow> Inr \<lparr> x_game_number = map game_number df, y_final = ys,
                               y_rolling = Some rs \<rparr>)
          else Inr \<lparr> x_game_number = map game_number df, y_final = ys, y_rolling = None \<rparr>)"

subsection \<open>Distribution summaries (lines 252-283, 379-405)\<close>

record totals =
  total_goals :: rat
  total_assists :: rat
  total_points :: rat
  pp_goals :: rat
  sh_goals :: rat
  pp_points :: rat
  sh_points :: rat
  es_goals :: rat
  es_points :: rat
  pp_assists :: rat
  sh_assists :: rat
  es_assists :: rat

definition season_totals :: "rat row list \<Rightarrow> totals" where
  "season_totals df =
     (let pp_a = sum_list (map powerPlayPoints df) - sum_list (map powerPlayGoals df);
          sh_a = sum_list (map shorthandedPoints df) - sum_list (map shorthandedGoals df)
      in \<lparr> total_goals = sum_list (map goals df),
           total_assists = sum_list (map assists df),
           total_points = sum_list (map points df),
           pp_goals = sum_list (map powerPlayGoals df),
           sh_goals = sum_list (map shorthandedGoals df),
           pp_points = sum_list (map powerPlayPoints df),
           sh_points = sum_list (map shorthandedPoints df),
           es_goals = sum_list (map goals df) - sum_list (map powerPlayGoals df)
                      - sum_list (map shorthandedGoals df),
           es_points = sum_list (map points df) - sum_list (map powerPlayPoints df)
                       - sum_list (map shorthandedPoints df),
           pp_assists = pp_a,
           sh_assists = sh_a,
           es_assists = sum_list (map assists df) - pp_a - sh_a \<rparr>)"

text \<open>
  \<open>dist_data\<close>: the keys \<open>labels\<close> and \<open>values\<close> are set only by the four branches of
  lines 270-281. The colour and the season label are presentation and are left out.
\<close>

record dist_data =
  dist_name :: string
  dist_labels :: "string list option"
  dist_values :: "rat list option"

definition situation_labels :: "string list" where
  "situation_labels = [''Even Strength'', ''Power Play'', ''Shorthanded'']"

definition distribution_summary :: "string \<Rightarrow> string \<Rightarrow> rat row list \<Rightarrow> dist_data" where
  "distribution_summary player_name selected_metric_id df =
     (let t = season_totals df in
      if selected_metric_id = ''pointsComp'' then
        \<lparr> dist_name = player_name, dist_labels = Some [''Goals'', ''Assists''],
          dist_values = Some [total_goals t, total_assists t] \<rparr>
      else if selected_metric_id = ''pointsSit'' then
        \<lparr> dist_name = player_name, dist_labels = Some situation_labels,
          dist_values = Some [es_points t, pp_points t, sh_points t] \<rparr>
      else if selected_metric_id = ''goalsSit'' then
        \<lparr> dist_name = player_name, dist_labels = Some situation_labels,
          dist_values = Some [es_goals t, pp_goals t, sh_goals t] \<rparr>
      else if selected_metric_id = ''assistsSit'' then
        \<lparr> dist_name = player_name, dist_labels = Some situation_labels,
          dist_values = Some [es_assists t, pp_assists t, sh_assists t] \<rparr>
      else \<lparr> dist_name = player_name, dist_labels = None, dist_values = None \<rparr>)"

text \<open>
  Lines 381-404 for one summary: \<open>dist['labels']\<close> and \<open>dist['values']\<close> raise KeyError
  when the key was never set; the result is the table of categories and values.
\<close>

definition render_summary :: "dist_data \<Rightarrow> error + (string \<times> rat) list" where
  "render_summary summary =
     (case dist_labels summary of
        None \<Rightarrow> Inl (KeyError ''labels'')
      | Some ls \<Rightarrow>
          (case dist_values summary of
             None \<Rightarrow> Inl (KeyError ''values'')
           | Some vs \<Rightarrow> Inr (zip ls vs)))"

subsection \<open>The selection list (lines 99-140)\<close>

record search_hit =
  playerId :: int
  name :: "string option"
  teamAbbrev :: "string option"

record season_total =
  season :: int
  leagueAbbrev :: string
  gameTypeId :: int

text \<open>
  The landing page of a player, as far as \<open>add_player\<close> reads it. \<open>get_player_details\<close>
  yields \<open>None\<close> when the request raised or the answer is falsy (\<open>not details\<close>).
\<close>

record details =
  seasonTotals :: "season_total list option"
  seasonId :: "int option"

record player =
  player_id :: int
  player_name :: string
  team :: string
  selected_season :: int
  available_seasons :: "int list"
  color_idx :: nat
  instance_id :: rat

datatype notice = Warning string | Error string

text \<open>Lines 117-121: \<open>seen\<close> always holds exactly the seasons appended so far.\<close>

fun first_seen :: "int list \<Rightarrow> int list \<Rightarrow> int list" where
  "first_seen seasons [] = seasons"
| "first_seen seasons (s # rest) =
     (if s \<in> set seasons then first_seen seasons rest else first_seen (seasons @ [s]) rest)"

definition nhl_seasons :: "season_total list \<Rightarrow> int list" where
  "nhl_seasons sts =
     map season (filter (\<lambda>s. leagueAbbrev s = ''NHL'' \<and> gameTypeId s = 2) sts)"

definition seasons_of :: "details \<Rightarrow> int list" where
  "seasons_of d =
     (let seasons = (case seasonTotals d of
                       None \<Rightarrow> []
                     | Some sts \<Rightarrow> rev (sort (first_seen [] (nhl_seasons sts))))
      in if seasons = [] then [case seasonId d of None \<Rightarrow> 20232024 | Some s \<Rightarrow> s]
         else seasons)"

text \<open>
  \<open>add_player\<close>: the session's list is passed in and handed back together with the
  notice shown, if any. \<open>now\<close> is \<open>datetime.now().timestamp()\<close>.
\<close>

definition add_player ::
  "(int \<Rightarrow> details option) \<Rightarrow> rat \<Rightarrow> player list \<Rightarrow> search_hit \<Rightarrow> notice option \<times> player list" where
  "add_player get_player_details now players player_data =
     (if length players \<ge> 3 then (Some (Warning ''Maximum 3 players allowed.''), players)
      else (case get_player_details (playerId player_data) of
              None \<Rightarrow> (Some (Error ''Could not fetch player details.''), players)
            | Some d \<Rightarrow>
                (let seasons = seasons_of d in
                 (None,
                  players @
                  [\<lparr> player_id = playerId player_data,
                     player_name = (case name player_data of None \<Rightarrow> ''Unknown'' | Some n \<Rightarrow> n),
                     team = (case teamAbbrev player_data of None \<Rightarrow> ''NHL'' | Some t \<Rightarrow> t),
                     selected_season = hd seasons,
                     available_seasons = seasons,
                     color_idx = length players,
                     instance_id = now \<rparr>]))))"

subsection \<open>Notions used to state the properties\<close>

text \<open>A character of the ASCII range, and the number that a string of decimal digits denotes.\<close>

definition is_ascii :: "char \<Rightarrow> bool" where
  "is_ascii c = (of_char c < (128::nat))"


definition decimal :: "string \<Rightarrow> nat" where
  "decimal ds = foldl (\<lambda>acc c. 10 * acc + digit_val c) 0 ds"

text \<open>
  The sum of a per-game quantity over the games 1 to \<open>g\<close>, and over the ten games
  \<open>g - 9\<close> to \<open>g\<close>; game \<open>k\<close> is the row at position \<open>k - 1\<close>.
\<close>

definition cum_at :: "(rat row \<Rightarrow> rat) \<Rightarrow> rat row list \<Rightarrow> nat \<Rightarrow> rat" where
  "cum_at f df g = (\<Sum>k = 1..g. f (df ! (k - 1)))"

definition window_at :: "(rat row \<Rightarrow> rat) \<Rightarrow> rat row list \<Rightarrow> nat \<Rightarrow> rat" where
  "window_at f df g = (\<Sum>k = g - 9..g. f (df ! (k - 1)))"

text \<open>The special-teams points of a game: power-play plus shorthanded points.\<close>

definition special_pts :: "rat row \<Rightarrow> rat" where
  "special_pts r = powerPlayPoints r + shorthandedPoints r"

text \<open>A frame is numbered when \<open>game_number\<close> runs 1, 2, ..., N down its rows.\<close>

definition numbered :: "'n row list \<Rightarrow> bool" where
  "numbered df = (map game_number df = [1..<Suc (length df)])"

subsection \<open>Example frames\<close>

text \<open>
  A row of a frame for game \<open>g\<close> with the given goals, shots and points, every other
  count and clock zero; the frames of the specification's scenarios A (two games, one goal
  on three shots, then none on two) and B (eleven games with one point each; here also two shots each).
\<close>

definition example_row :: "nat \<Rightarrow> rat \<Rightarrow> rat \<Rightarrow> rat \<Rightarrow> rat row" where
  "example_row g n_goals n_shots n_points =
     \<lparr> date_obj = Some (int g), game_number = g, toi_val = 0, pp_toi_val = 0, sh_toi_val = 0,
       goals = n_goals, assists = n_points - n_goals, points = n_points, shots = n_shots,
       plusMinus = 0, powerPlayPoints = 0, shorthandedPoints = 0, powerPlayGoals = 0,
       shorthandedGoals = 0 \<rparr>"

definition scenario_A :: "rat row list" where
  "scenario_A = [example_row 1 1 3 1, example_row 2 0 2 0]"

definition scenario_B :: "rat row list" where
  "scenario_B = map (\<lambda>g. example_row g 0 2 1) [1..<12]"

text \<open>
  A raw game log of three records, delivered out of date order; the second record has no
  special-teams clocks.
\<close>

definition example_log :: "raw_game list" where
  "example_log =
     [\<lparr> gameDate = Some 1704844800, toi = Some ''19:05'', powerPlayToi = Some ''03:10'',
        shorthandedToi = Some ''00:00'',
        numeric = [(''goals'', 0), (''assists'', 2), (''points'', 2), (''shots'', 4)] \<rparr>,
      \<lparr> gameDate = Some 1704412800, toi = Some ''18:32'', powerPlayToi = None,
        shorthandedToi = None,
        numeric = [(''goals'', 1), (''assists'', 0), (''points'', 1), (''shots'', 3)] \<rparr>,
      \<lparr> gameDate = Some 1704585600, toi = Some ''21:47'', powerPlayToi = Some ''01:30'',
        shorthandedToi = Some ''00:45'',
        numeric = [(''goals'', 2), (''assists'', 1), (''points'', 3), (''shots'', 6)] \<rparr>]"

text \<open>Ascending order of dates with NaT last, as \<open>sort_values\<close> promises it.\<close>

definition date_le :: "timestamp option \<Rightarrow> timestamp option \<Rightarrow> bool" where
  "date_le a b =
     (case b of
        None \<Rightarrow> True
      | Some y \<Rightarrow> (case a of None \<Rightarrow> False | Some x \<Rightarrow> x \<le> y))"

section \<open>Properties\<close>

subsection \<open>Splitting and reading integers\<close>

lemma split_on_not_Nil: "split_on c s \<noteq> []"
  by (induction s) (auto split: list.splits)

lemma split_on_no_sep: "c \<notin> set b \<Longrightarrow> split_on c b = [b]"
  by (induction b) auto

lemma split_on_first_sep: "c \<notin> set a \<Longrightarrow> split_on c (a @ c # b) = a # split_on c b"
  by (induction a) auto

lemma split_on_pieces: "p \<in> set (split_on c s) \<Longrightarrow> set p \<subseteq> set s"
proof (induction s arbitrary: p)
  case Nil
  then show ?case by simp
next
  case (Cons x xs)
  show ?case
  proof (cases "x = c")
    case True
    with Cons show ?thesis by auto
  next
    case False
    obtain w ws where ws: "split_on c xs = w # ws"
      using split_on_not_Nil [of c xs] by (cases "split_on c xs") auto
    with False Cons.prems have "p = x # w \<or> p \<in> set ws" by auto
    then show ?thesis
    proof
      assume "p = x # w"
      moreover have "set w \<subseteq> set xs" using Cons.IH [of w] ws by simp
      ultimately show ?thesis by auto
    next
      assume "p \<in> set ws"
      then have "set p \<subseteq> set xs" using Cons.IH [of p] ws by simp
      then show ?thesis by auto
    qed
  qed
qed

lemma read_digits_all_digits:
  "list_all is_digit ds \<Longrightarrow> read_digits acc ds = Some (foldl (\<lambda>a c. 10 * a + digit_val c) acc ds)"
  by (induction ds arbitrary: acc) auto

lemma read_digits_chars:
  "read_digits acc cs = Some n \<Longrightarrow> c \<in> set cs \<Longrightarrow> is_digit c \<or> c = CHR ''_''"
  by (induction acc cs rule: read_digits.induct) (auto split: if_splits list.splits)

lemma digit_not_space: "is_digit c \<Longrightarrow> \<not> is_space c"
  by (auto simp: is_digit_def is_space_def)

lemma digit_not_sign: "is_digit c \<Longrightarrow> c \<noteq> CHR ''-'' \<and> c \<noteq> CHR ''+'' \<and> c \<noteq> CHR '':''"
  by (auto simp: is_digit_def)

lemma strip_digits: "ds \<noteq> [] \<Longrightarrow> list_all is_digit ds \<Longrightarrow> strip ds = ds"
proof -
  assume ne: "ds \<noteq> []" and dg: "list_all is_digit ds"
  then obtain c cs where ds: "ds = c # cs" by (cases ds) auto
  with dg have "\<not> is_space c" by (simp add: digit_not_space)
  with ds have a: "dropWhile is_space ds = ds" by simp
  from ne obtain d rs where r: "rev ds = d # rs" by (cases "rev ds") auto
  then have "d \<in> set ds" by (metis list.set_intros(1) set_rev)
  with dg have "\<not> is_space d" by (auto simp: list_all_iff digit_not_space)
  with r have "dropWhile is_space (rev ds) = rev ds" by simp
  with a show ?thesis by (simp add: strip_def)
qed

lemma py_int_digits:
  assumes "ds \<noteq> []" "list_all is_digit ds" "length ds \<le> max_str_digits"
  shows "py_int ds = Some (int (decimal ds))"
proof -
  from assms obtain c cs where ds: "ds = c # cs" by (cases ds) auto
  with assms have c: "is_digit c" and cs: "list_all is_digit cs" by auto
  have "length (filter is_digit (c # cs)) \<le> length (c # cs)"
    by (rule length_filter_le)
  with assms(3) ds have "length (filter is_digit (c # cs)) \<le> max_str_digits"
    by simp
  then have "unsigned_int (c # cs) = Some (decimal (c # cs))"
    using c cs by (simp add: unsigned_int_def read_digits_all_digits decimal_def)
  with c ds show ?thesis
    using strip_digits [OF assms(1,2)] digit_not_sign [of c] by (simp add: py_int_def)
qed

lemma digit_val_le: "is_digit c \<Longrightarrow> digit_val c \<le> 9"
  by (auto simp: is_digit_def digit_val_def)

lemma foldl_digits_bound:
  "list_all is_digit ds \<Longrightarrow>
     foldl (\<lambda>a c. 10 * a + digit_val c) acc ds < (acc + 1) * 10 ^ length ds"
proof (induction ds arbitrary: acc)
  case Nil
  then show ?case by simp
next
  case (Cons d ds)
  then have d: "digit_val d \<le> 9" and ds: "list_all is_digit ds"
    by (simp_all add: digit_val_le)
  have "foldl (\<lambda>a c. 10 * a + digit_val c) (10 * acc + digit_val d) ds
      < (10 * acc + digit_val d + 1) * 10 ^ length ds"
    using Cons.IH [OF ds] .
  also have "\<dots> \<le> (10 * acc + 10) * 10 ^ length ds"
    using d by (intro mult_right_mono) auto
  also have "\<dots> = (acc + 1) * 10 ^ length (d # ds)"
    by (simp add: algebra_simps)
  finally show ?case by simp
qed

lemma decimal_bound: "list_all is_digit ds \<Longrightarrow> decimal ds < 10 ^ length ds"
  using foldl_digits_bound [of ds 0] by (simp add: decimal_def)

lemma float_convertible_300_digits:
  assumes "list_all is_digit ds" "length ds \<le> 300"
  shows "float_convertible (int (decimal ds))"
proof -
  have "decimal ds < 10 ^ length ds" using assms(1) by (rule decimal_bound)
  also have "(10::nat) ^ length ds \<le> 10 ^ 300"
    using assms(2) by (intro power_increasing) auto
  finally have "int (decimal ds) < 10 ^ 300"
    by (metis of_nat_less_iff of_nat_numeral of_nat_power)
  moreover have "(10::int) ^ 300 < 2 ^ 1024 - 2 ^ 970" by simp
  ultimately show ?thesis by (simp add: float_convertible_def)
qed

lemma foldl_nines:
  "foldl (\<lambda>a c. 10 * a + digit_val c) acc (replicate n CHR ''9'') + 1 = (acc + 1) * 10 ^ n"
proof (induction n arbitrary: acc)
  case 0
  then show ?case by simp
next
  case (Suc n)
  have "digit_val CHR ''9'' = 9" by (simp add: digit_val_def)
  then show ?case using Suc [of "10 * acc + 9"] by (simp add: algebra_simps)
qed

lemma decimal_nines: "int (decimal (replicate n CHR ''9'')) = 10 ^ n - 1"
proof -
  have "decimal (replicate n CHR ''9'') + 1 = 10 ^ n"
    using foldl_nines [of 0 n] by (simp add: decimal_def)
  then have "int (decimal (replicate n CHR ''9'') + 1) = int (10 ^ n)"
    by (simp only:)
  then show ?thesis by simp
qed

lemma nines_digits: "list_all is_digit (replicate n CHR ''9'')"
  by (simp add: list_all_iff is_digit_def)

lemma set_strip: "set (strip s) \<subseteq> set s"
proof -
  have "set (strip s) = set (dropWhile is_space (rev (dropWhile is_space s)))"
    by (simp add: strip_def)
  also have "\<dots> \<subseteq> set (rev (dropWhile is_space s))"
    by (meson set_dropWhileD subsetI)
  also have "\<dots> \<subseteq> set s"
    by (auto dest: set_dropWhileD)
  finally show ?thesis .
qed

lemma set_strip_spaces: "c \<in> set s \<Longrightarrow> c \<in> set (strip s) \<or> is_space c"
proof -
  assume c: "c \<in> set s"
  let ?u = "dropWhile is_space s"
  have "s = takeWhile is_space s @ ?u" by simp
  then have "set s = set (takeWhile is_space s) \<union> set ?u"
    by (metis set_append)
  with c have "is_space c \<or> c \<in> set ?u"
    by (auto dest: set_takeWhileD)
  moreover have "set ?u = set (takeWhile is_space (rev ?u)) \<union> set (dropWhile is_space (rev ?u))"
    by (metis set_append set_rev takeWhile_dropWhile_id)
  ultimately show ?thesis
    by (auto simp: strip_def dest: set_takeWhileD)
qed

lemma py_int_no_minus: "py_int t = Some n \<Longrightarrow> CHR ''-'' \<notin> set t \<Longrightarrow> 0 \<le> n"
proof -
  assume p: "py_int t = Some n" and m: "CHR ''-'' \<notin> set t"
  from p obtain c cs where s: "strip t = c # cs"
    by (cases "strip t") (auto simp: py_int_def)
  then have "c \<in> set t" using set_strip [of t] by auto
  with m have "c \<noteq> CHR ''-''" by auto
  with p s show ?thesis
    by (auto simp: py_int_def split: if_splits)
qed

lemma unsigned_int_chars:
  "unsigned_int s = Some n \<Longrightarrow> c \<in> set s \<Longrightarrow> is_digit c \<or> c = CHR ''_''"
  by (cases s) (auto simp: unsigned_int_def split: if_splits dest: read_digits_chars)

lemma py_int_chars:
  assumes "py_int t = Some n" "c \<in> set t"
  shows "is_digit c \<or> is_space c \<or> c \<in> set ''+-_''"
proof -
  from assms(1) obtain d ds where s: "strip t = d # ds"
    by (cases "strip t") (auto simp: py_int_def)
  from assms(2) have "c \<in> set (strip t) \<or> is_space c" by (rule set_strip_spaces)
  then show ?thesis
  proof
    assume "c \<in> set (strip t)"
    with s have "c = d \<or> c \<in> set ds" by auto
    with assms(1) s show ?thesis
      by (auto simp: py_int_def split: if_splits dest: unsigned_int_chars)
  qed simp
qed


lemma split_on_covers: "c \<in> set s \<Longrightarrow> c \<noteq> sep \<Longrightarrow> \<exists>p \<in> set (split_on sep s). c \<in> set p"
proof (induction s)
  case Nil
  then show ?case by simp
next
  case (Cons x xs)
  obtain w ws where ws: "split_on sep xs = w # ws"
    using split_on_not_Nil [of sep xs] by (cases "split_on sep xs") auto
  show ?case
  proof (cases "c = x")
    case True
    with Cons.prems ws show ?thesis by auto
  next
    case False
    with Cons.prems have "c \<in> set xs" by simp
    with Cons have "\<exists>p \<in> set (w # ws). c \<in> set p" using ws by simp
    then show ?thesis using ws by (cases "x = sep") auto
  qed
qed

lemma toi_minutes_Inr:
  "toi_minutes s = Inr v \<Longrightarrow>
     \<exists>a b m n. split_on CHR '':'' s = [a, b] \<and> py_int a = Some m \<and> py_int b = Some n
        \<and> float_convertible m \<and> float_convertible n \<and> v = of_int m + of_int n / 60"
  by (auto simp: toi_minutes_def split: list.splits option.splits if_splits)

lemma parse_toi_cases:
  "parse_toi (Some s) = 0 \<or> (\<exists>v. s \<noteq> [] \<and> toi_minutes s = Inr v \<and> parse_toi (Some s) = v)"
  by (cases "toi_minutes s") (auto simp: parse_toi_def)

lemma parse_toi_two_parts:
  assumes "split_on CHR '':'' s = [a, b]" "py_int a = Some m" "py_int b = Some n"
    and "float_convertible m" "float_convertible n"
  shows "parse_toi (Some s) = of_int m + of_int n / 60"
proof -
  from assms(1) have "s \<noteq> []" by auto
  with assms show ?thesis by (simp add: parse_toi_def toi_minutes_def)
qed

lemma float_convertible_below: "\<bar>n\<bar> < 2 ^ 1023 \<Longrightarrow> float_convertible n"
proof -
  assume "\<bar>n\<bar> < 2 ^ 1023"
  moreover have "(2::int) ^ 1023 \<le> 2 ^ 1024 - 2 ^ 970" by simp
  ultimately show ?thesis unfolding float_convertible_def by linarith
qed

lemma parse_toi_overflow:
  assumes "split_on CHR '':'' s = [a, b]" "py_int a = Some m" "py_int b = Some n"
    and "\<not> float_convertible m \<or> \<not> float_convertible n"
  shows "parse_toi (Some s) = 0"
  using assms by (auto simp: parse_toi_def toi_minutes_def)

lemma parse_toi_digits:
  assumes "mm \<noteq> []" "ss \<noteq> []" "list_all is_digit mm" "list_all is_digit ss"
    and "length mm \<le> 300" "length ss \<le> 300"
  shows "parse_toi (Some (mm @ '':'' @ ss)) = of_nat (decimal mm) + of_nat (decimal ss) / 60"
proof -
  have "CHR '':'' \<notin> set mm" "CHR '':'' \<notin> set ss"
    using assms(3,4) digit_not_sign by (auto simp: list_all_iff)
  then have "split_on CHR '':'' (mm @ '':'' @ ss) = [mm, ss]"
    by (simp add: split_on_first_sep split_on_no_sep)
  moreover have "length mm \<le> max_str_digits" "length ss \<le> max_str_digits"
    using assms(5,6) by (simp_all add: max_str_digits_def)
  ultimately show ?thesis
    using parse_toi_two_parts [of "mm @ '':'' @ ss" mm ss "int (decimal mm)" "int (decimal ss)"]
      py_int_digits [OF assms(1,3)] py_int_digits [OF assms(2,4)]
      float_convertible_300_digits [OF assms(3,5)] float_convertible_300_digits [OF assms(4,6)]
    by simp
qed

lemma parse_toi_wrong_count: "length (split_on CHR '':'' s) \<noteq> 2 \<Longrightarrow> parse_toi (Some s) = 0"
  using parse_toi_cases [of s] by (auto dest!: toi_minutes_Inr)

lemma parse_toi_bad_part:
  "p \<in> set (split_on CHR '':'' s) \<Longrightarrow> py_int p = None \<Longrightarrow> parse_toi (Some s) = 0"
  using parse_toi_cases [of s] by (auto dest!: toi_minutes_Inr)

lemma parse_toi_bad_char:
  assumes "c \<in> set s" "\<not> (is_digit c \<or> is_space c \<or> c \<in> set ''+-_:'')"
  shows "parse_toi (Some s) = 0"
proof -
  from assms have "c \<noteq> CHR '':''" by auto
  with assms(1) obtain p where p: "p \<in> set (split_on CHR '':'' s)" "c \<in> set p"
    using split_on_covers by blast
  have "py_int p = None"
  proof (cases "py_int p")
    case (Some n)
    from py_int_chars [OF Some p(2)] assms(2) show ?thesis by auto
  qed simp
  with p(1) show ?thesis by (rule parse_toi_bad_part)
qed

lemma parse_toi_no_minus: "CHR ''-'' \<notin> set s \<Longrightarrow> 0 \<le> parse_toi (Some s)"
proof -
  assume m: "CHR ''-'' \<notin> set s"
  from parse_toi_cases [of s] show ?thesis
  proof
    assume "\<exists>v. s \<noteq> [] \<and> toi_minutes s = Inr v \<and> parse_toi (Some s) = v"
    then obtain v where v: "toi_minutes s = Inr v" "parse_toi (Some s) = v" by blast
    from toi_minutes_Inr [OF v(1)] obtain a b k n where
      ab: "split_on CHR '':'' s = [a, b]" "py_int a = Some k" "py_int b = Some n"
        "v = of_int k + of_int n / 60" by blast
    have "set a \<subseteq> set s" "set b \<subseteq> set s"
      using split_on_pieces [of a "CHR '':''" s] split_on_pieces [of b "CHR '':''" s] ab(1) by auto
    with m have "CHR ''-'' \<notin> set a" "CHR ''-'' \<notin> set b" by auto
    with ab have "0 \<le> k" "0 \<le> n" using py_int_no_minus by blast+
    with ab(4) v(2) show ?thesis by simp
  qed simp
qed

subsection \<open>Running totals and row-wise evaluation\<close>

lemma length_cumsum_from: "length (cumsum_from a xs) = length xs"
  by (induction xs arbitrary: a) auto

lemma cumsum_from_nth: "i < length xs \<Longrightarrow> cumsum_from a xs ! i = a + sum_list (take (Suc i) xs)"
proof (induction xs arbitrary: a i)
  case Nil
  then show ?case by simp
next
  case (Cons x xs)
  then show ?case by (cases i) (auto simp: add.assoc)
qed

lemma cumsum_nth: "i < length xs \<Longrightarrow> cumsum xs ! i = sum_list (take (Suc i) xs)"
  by (simp add: cumsum_def cumsum_from_nth)

lemma sum_list_take_cum_at:
  "g \<le> length df \<Longrightarrow> sum_list (take g (map f df)) = cum_at f df g"
proof -
  assume g: "g \<le> length df"
  have "sum_list (take g (map f df)) = (\<Sum>i = 0..<g. take g (map f df) ! i)"
    using g by (simp add: sum_list_sum_nth)
  also have "\<dots> = (\<Sum>i = 0..<g. f (df ! i))"
    using g by (intro sum.cong) auto
  also have "\<dots> = (\<Sum>k = 1..g. f (df ! (k - 1)))"
    by (rule sum.reindex_bij_witness [where i = "\<lambda>k. k - 1" and j = Suc]) auto
  finally show ?thesis by (simp add: cum_at_def)
qed

lemma sum_list_iloc_window_at:
  assumes "10 \<le> g" "g \<le> length df"
  shows "sum_list (map f (iloc (g - 10) g df)) = window_at f df g"
proof -
  let ?w = "map f (iloc (g - 10) g df)"
  have len: "length ?w = 10" using assms by (simp add: iloc_def)
  have nth: "\<And>i. i < 10 \<Longrightarrow> ?w ! i = f (df ! (g - 10 + i))"
    using assms by (simp add: iloc_def)
  have "sum_list ?w = (\<Sum>i = 0..<10. ?w ! i)"
    using len by (simp add: sum_list_sum_nth)
  also have "\<dots> = (\<Sum>i = 0..<10. f (df ! (g - 10 + i)))"
    by (intro sum.cong) (auto simp: nth)
  also have "\<dots> = (\<Sum>k = g - 9..g. f (df ! (k - 1)))"
    using assms
    by (intro sum.reindex_bij_witness [where i = "\<lambda>k. k - (g - 9)" and j = "\<lambda>i. g - 9 + i"]) auto
  finally show ?thesis by (simp add: window_at_def)
qed

lemma collect_map_Inr:
  "(\<And>x. x \<in> set xs \<Longrightarrow> f x = Inr (h x)) \<Longrightarrow> collect (map f xs) = Inr (map h xs)"
  by (induction xs) auto

lemma cum_rows_nth:
  "i < length df \<Longrightarrow>
     cum_rows m df ! i =
       \<lparr> gp = game_number (df ! i),
         cum_val = cum_at (stat_val m) df (Suc i),
         cum_goals = cum_at goals df (Suc i),
         cum_shots = cum_at shots df (Suc i),
         cum_points = cum_at points df (Suc i),
         cum_pp_sh_pts = cum_at special_pts df (Suc i) \<rparr>"
proof -
  assume i: "i < length df"
  have "\<And>f. cumsum (map f df) ! i = cum_at f df (Suc i)"
    using i by (simp add: cumsum_nth sum_list_take_cum_at)
  moreover have "(\<lambda>r. powerPlayPoints r + shorthandedPoints r) = special_pts"
    by (auto simp: special_pts_def)
  ultimately show ?thesis using i by (simp add: cum_rows_def)
qed

lemma length_cum_rows: "length (cum_rows m df) = length df"
  by (simp add: cum_rows_def)

lemma y_values_rowwise:
  assumes "\<And>i. i < length df \<Longrightarrow> y_value mode_key m (cum_rows m df ! i) = Inr (h i)"
  shows "y_values mode_key m df = Inr (map h [0..<length df])"
proof -
  have "map (y_value mode_key m) (cum_rows m df)
      = map (\<lambda>i. y_value mode_key m (cum_rows m df ! i)) [0..<length df]"
    by (rule nth_equalityI) (auto simp: length_cum_rows)
  then have "y_values mode_key m df
      = collect (map (\<lambda>i. y_value mode_key m (cum_rows m df ! i)) [0..<length df])"
    by (simp add: y_values_def)
  also have "\<dots> = Inr (map h [0..<length df])"
    by (rule collect_map_Inr) (simp add: assms)
  finally show ?thesis .
qed

lemma numbered_nth: "numbered df \<Longrightarrow> i < length df \<Longrightarrow> game_number (df ! i) = Suc i"
proof -
  assume a: "numbered df" and i: "i < length df"
  have "game_number (df ! i) = map game_number df ! i" using i by simp
  also have "\<dots> = [1..<Suc (length df)] ! i" using a by (simp only: numbered_def)
  also have "\<dots> = Suc i" using i by (simp del: upt_Suc)
  finally show ?thesis .
qed

subsection \<open>One value of the series, metric by metric\<close>

lemma cum_at_Suc: "cum_at f df (Suc g) = cum_at f df g + f (df ! g)"
  by (simp add: cum_at_def)

lemma cum_at_nonneg:
  assumes "\<forall>r \<in> set df. 0 \<le> f r" "g \<le> length df"
  shows "0 \<le> cum_at f df g"
  unfolding cum_at_def
proof (rule sum_nonneg)
  fix k assume "k \<in> {1..g}"
  with assms(2) have "k - 1 < length df" by auto
  then have "df ! (k - 1) \<in> set df" by simp
  with assms(1) show "0 \<le> f (df ! (k - 1))" by blast
qed

lemma checked_div_nat: "n \<noteq> 0 \<Longrightarrow> checked_div a (of_nat n) = Inr (a / of_nat n)"
  by (simp add: checked_div_def)

lemma checked_div_pos: "0 < b \<Longrightarrow> checked_div a b = Inr (a / b)"
  by (simp add: checked_div_def)

lemma y_value_shootingPct:
  "y_value mode_key ''shootingPct'' row
     = Inr (if cum_shots row > 0 then cum_goals row / cum_shots row * 100 else 0)"
  by (simp add: y_value_def y_res_def is_rate_def checked_div_pos)

lemma y_value_evenStrengthPct:
  "y_value mode_key ''evenStrengthPct'' row
     = Inr (if cum_points row > 0
            then (cum_points row - cum_pp_sh_pts row) / cum_points row * 100 else 0)"
  by (simp add: y_value_def y_res_def is_rate_def checked_div_pos)

lemma y_value_toi:
  "m \<in> set [''toi'', ''esToi''] \<Longrightarrow> gp row \<noteq> 0 \<Longrightarrow>
     y_value mode_key m row = Inr (cum_val row / of_nat (gp row))"
  by (auto simp: y_value_def y_res_def is_rate_def checked_div_nat)

lemma y_value_shots_projection:
  "gp row \<noteq> 0 \<Longrightarrow> y_value Projection ''shots'' row = Inr (cum_val row / of_nat (gp row))"
  by (simp add: y_value_def y_res_def is_rate_def checked_div_nat)

lemma y_value_plain_cumulative:
  "m \<notin> set [''shootingPct'', ''evenStrengthPct'', ''toi'', ''esToi''] \<Longrightarrow>
     y_value Cumulative m row = Inr (cum_val row)"
  by (simp add: y_value_def y_res_def)

lemma y_value_plain_projection:
  "\<not> is_rate m \<Longrightarrow> gp row \<noteq> 0 \<Longrightarrow>
     y_value Projection m row = Inr (cum_val row / of_nat (gp row) * 82)"
  by (simp add: y_value_def y_res_def is_rate_def checked_div_nat)

lemma y_value_total:
  "gp row \<noteq> 0 \<Longrightarrow> \<exists>v. y_value mode_key m row = Inr v"
  by (simp add: y_value_def y_res_def is_rate_def checked_div_nat checked_div_pos)

subsection \<open>The whole series\<close>

lemma y_values_total:
  assumes "numbered df"
  shows "\<exists>ys. y_values mode_key m df = Inr ys \<and> length ys = length df"
proof -
  have "\<forall>i. \<exists>v. i < length df \<longrightarrow> y_value mode_key m (cum_rows m df ! i) = Inr v"
  proof
    fix i
    show "\<exists>v. i < length df \<longrightarrow> y_value mode_key m (cum_rows m df ! i) = Inr v"
    proof (cases "i < length df")
      case True
      then have "gp (cum_rows m df ! i) \<noteq> 0"
        using assms by (simp add: cum_rows_nth numbered_nth)
      then show ?thesis using y_value_total by blast
    qed simp
  qed
  then obtain h where "\<And>i. i < length df \<Longrightarrow> y_value mode_key m (cum_rows m df ! i) = Inr (h i)"
    by metis
  then have "y_values mode_key m df = Inr (map h [0..<length df])"
    by (rule y_values_rowwise)
  then show ?thesis by simp
qed

lemma y_values_plain_cumulative:
  assumes "m \<notin> set [''shootingPct'', ''evenStrengthPct'', ''toi'', ''esToi'']"
  shows "y_values Cumulative m df = Inr (map (\<lambda>i. cum_at (stat_val m) df (Suc i)) [0..<length df])"
  by (rule y_values_rowwise) (simp add: y_value_plain_cumulative [OF assms] cum_rows_nth)

lemma y_values_plain_projection:
  assumes "numbered df" "\<not> is_rate m"
  shows "y_values Projection m df
     = Inr (map (\<lambda>i. cum_at (stat_val m) df (Suc i) / of_nat (Suc i) * 82) [0..<length df])"
proof (rule y_values_rowwise)
  fix i assume i: "i < length df"
  then have "gp (cum_rows m df ! i) = Suc i"
    using assms(1) by (simp add: cum_rows_nth numbered_nth)
  then show "y_value Projection m (cum_rows m df ! i)
      = Inr (cum_at (stat_val m) df (Suc i) / of_nat (Suc i) * 82)"
    using y_value_plain_projection [OF assms(2), of "cum_rows m df ! i"] i
    by (simp add: cum_rows_nth)
qed

lemma y_values_per_game:
  assumes "numbered df" "m \<in> set [''toi'', ''esToi''] \<or> (m = ''shots'' \<and> mode_key = Projection)"
  shows "y_values mode_key m df
     = Inr (map (\<lambda>i. cum_at (stat_val m) df (Suc i) / of_nat (Suc i)) [0..<length df])"
proof (rule y_values_rowwise)
  fix i assume i: "i < length df"
  then have g: "gp (cum_rows m df ! i) = Suc i"
    using assms(1) by (simp add: cum_rows_nth numbered_nth)
  then have "y_value mode_key m (cum_rows m df ! i)
      = Inr (cum_val (cum_rows m df ! i) / of_nat (gp (cum_rows m df ! i)))"
    using assms(2) y_value_toi [of m "cum_rows m df ! i" mode_key]
      y_value_shots_projection [of "cum_rows m df ! i"] by auto
  with g i show "y_value mode_key m (cum_rows m df ! i)
      = Inr (cum_at (stat_val m) df (Suc i) / of_nat (Suc i))"
    by (simp add: cum_rows_nth)
qed

lemma y_values_shootingPct:
  "y_values mode_key ''shootingPct'' df
     = Inr (map (\<lambda>i. if cum_at shots df (Suc i) > 0
                      then cum_at goals df (Suc i) / cum_at shots df (Suc i) * 100 else 0)
              [0..<length df])"
  by (rule y_values_rowwise) (simp add: y_value_shootingPct cum_rows_nth)

lemma y_values_evenStrengthPct:
  "y_values mode_key ''evenStrengthPct'' df
     = Inr (map (\<lambda>i. if cum_at points df (Suc i) > 0
                      then (cum_at points df (Suc i) - cum_at special_pts df (Suc i))
                           / cum_at points df (Suc i) * 100
                      else 0)
              [0..<length df])"
  by (rule y_values_rowwise) (simp add: y_value_evenStrengthPct cum_rows_nth)


subsection \<open>The rolling window\<close>

lemma roll_value_plain:
  "\<not> is_rate m \<Longrightarrow>
     roll_value m w = Inr (sum_list (map (stat_val m) w) / 10 * 82)"
  by (simp add: roll_value_def is_rate_def Let_def)

lemma roll_value_per_game:
  "m \<in> set [''toi'', ''esToi'', ''shots''] \<Longrightarrow>
     roll_value m w = Inr (sum_list (map (stat_val m) w) / 10)"
  by (auto simp: roll_value_def is_rate_def Let_def)

lemma roll_value_shootingPct:
  "roll_value ''shootingPct'' w
     = Inr (if sum_list (map shots w) > 0
            then sum_list (map goals w) / sum_list (map shots w) * 100 else 0)"
  by (simp add: roll_value_def is_rate_def Let_def checked_div_pos)

lemma sum_list_special_pts:
  "sum_list (map powerPlayPoints w) + sum_list (map shorthandedPoints w)
     = sum_list (map special_pts w)"
  by (induction w) (auto simp: special_pts_def)

lemma roll_value_evenStrengthPct:
  "roll_value ''evenStrengthPct'' w
     = Inr (if sum_list (map points w) > 0
            then (sum_list (map points w) - sum_list (map special_pts w))
                 / sum_list (map points w) * 100
            else 0)"
  by (simp add: roll_value_def is_rate_def Let_def checked_div_pos sum_list_special_pts)


lemma roll_value_total: "\<exists>v. roll_value m w = Inr v"
proof (cases "is_rate m")
  case False
  then show ?thesis using roll_value_plain [of m w] by blast
next
  case True
  then have "m = ''shootingPct'' \<or> m = ''evenStrengthPct'' \<or> m \<in> set [''toi'', ''esToi'', ''shots'']"
    by (auto simp: is_rate_def)
  then show ?thesis
    using roll_value_shootingPct [of w] roll_value_evenStrengthPct [of w]
      roll_value_per_game [of m w] by blast
qed

lemma roll_y_windowwise:
  assumes "\<And>g. 10 \<le> g \<Longrightarrow> g \<le> length df \<Longrightarrow> roll_value m (iloc (g - 10) g df) = Inr (h g)"
  shows "roll_y m df
     = Inr (map (\<lambda>i. if i < 9 then None else Some (h (Suc i))) [0..<length df])"
  unfolding roll_y_def
proof (rule collect_map_Inr)
  fix i assume "i \<in> set [0..<length df]"
  then have i: "i < length df" by simp
  show "(if i < 9 then Inr None
         else case roll_value m (iloc (i - 9) (i + 1) df) of
                Inl e \<Rightarrow> Inl e | Inr r_final \<Rightarrow> Inr (Some r_final))
        = Inr (if i < 9 then None else Some (h (Suc i)))"
  proof (cases "i < 9")
    case False
    then have "roll_value m (iloc (Suc i - 10) (Suc i) df) = Inr (h (Suc i))"
      using i by (intro assms) auto
    moreover have "Suc i - 10 = i - 9" by simp
    ultimately show ?thesis using False by simp
  qed simp
qed

lemma roll_y_total: "\<exists>rs. roll_y m df = Inr rs \<and> length rs = length df"
proof -
  have "\<forall>g. \<exists>v. roll_value m (iloc (g - 10) g df) = Inr v"
    by (simp add: roll_value_total)
  then obtain h where "\<And>g. roll_value m (iloc (g - 10) g df) = Inr (h g)"
    by metis
  then have "roll_y m df = Inr (map (\<lambda>i. if i < 9 then None else Some (h (Suc i))) [0..<length df])"
    by (intro roll_y_windowwise) simp
  then show ?thesis by simp
qed

lemma roll_y_plain:
  assumes "\<not> is_rate m"
  shows "roll_y m df
     = Inr (map (\<lambda>i. if i < 9 then None else Some (window_at (stat_val m) df (Suc i) / 10 * 82))
              [0..<length df])"
  by (rule roll_y_windowwise) (simp add: roll_value_plain [OF assms] sum_list_iloc_window_at)

lemma roll_y_per_game:
  assumes "m \<in> set [''toi'', ''esToi'', ''shots'']"
  shows "roll_y m df
     = Inr (map (\<lambda>i. if i < 9 then None else Some (window_at (stat_val m) df (Suc i) / 10))
              [0..<length df])"
  by (rule roll_y_windowwise) (simp add: roll_value_per_game [OF assms] sum_list_iloc_window_at)

lemma roll_y_shootingPct:
  "roll_y ''shootingPct'' df
     = Inr (map (\<lambda>i. if i < 9 then None
                      else Some (if window_at shots df (Suc i) > 0
                                 then window_at goals df (Suc i) / window_at shots df (Suc i) * 100
                                 else 0))
              [0..<length df])"
  by (rule roll_y_windowwise) (simp add: roll_value_shootingPct sum_list_iloc_window_at)

lemma roll_y_evenStrengthPct:
  "roll_y ''evenStrengthPct'' df
     = Inr (map (\<lambda>i. if i < 9 then None
                      else Some (if window_at points df (Suc i) > 0
                                 then (window_at points df (Suc i) - window_at special_pts df (Suc i))
                                      / window_at points df (Suc i) * 100
                                 else 0))
              [0..<length df])"
  by (rule roll_y_windowwise) (simp add: roll_value_evenStrengthPct sum_list_iloc_window_at)

lemma roll_y_form:
  "\<exists>h. roll_y m df = Inr (map (\<lambda>i. if i < 9 then None else Some (h (Suc i))) [0..<length df])"
proof -
  have "\<forall>g. \<exists>v. roll_value m (iloc (g - 10) g df) = Inr v"
    by (simp add: roll_value_total)
  then obtain h where "\<And>g. roll_value m (iloc (g - 10) g df) = Inr (h g)"
    by metis
  then have "roll_y m df = Inr (map (\<lambda>i. if i < 9 then None else Some (h (Suc i))) [0..<length df])"
    by (intro roll_y_windowwise) simp
  then show ?thesis by blast
qed

subsection \<open>The metric id of the select box\<close>

text \<open>
  Lines 217-222: the labels offered are those of the mode's own options, and the id looked
  up for any label is a key of these options. The dispatch of lines 288-299 and 315-324
  therefore only ever sees an id of \<open>METRIC_OPTIONS[mode_key]\<close>.
\<close>

lemma METRIC_LABELS_keys: "map fst (METRIC_LABELS mode_key) = METRIC_OPTIONS mode_key"
  by (cases mode_key) (simp_all add: METRIC_LABELS_def METRIC_OPTIONS_def)

lemma metric_id_of_label_in_options:
  "metric_id_of_label mode_key selected_label = Inr k \<Longrightarrow> k \<in> set (METRIC_OPTIONS mode_key)"
proof -
  assume a: "metric_id_of_label mode_key selected_label = Inr k"
  then obtain kv rest where
    f: "filter (\<lambda>kv. snd kv = selected_label) (METRIC_LABELS mode_key) = kv # rest"
    and k: "k = fst kv"
    by (auto simp: metric_id_of_label_def split: list.splits)
  from f have "kv \<in> set (filter (\<lambda>kv. snd kv = selected_label) (METRIC_LABELS mode_key))"
    by simp
  then have "kv \<in> set (METRIC_LABELS mode_key)" by simp
  then have "fst kv \<in> set (map fst (METRIC_LABELS mode_key))" by simp
  with k show ?thesis by (simp only: METRIC_LABELS_keys)
qed

lemma metric_id_of_offered_label:
  "selected_label \<in> set (map snd (METRIC_LABELS mode_key)) \<Longrightarrow>
     \<exists>k. metric_id_of_label mode_key selected_label = Inr k \<and> k \<in> set (METRIC_OPTIONS mode_key)"
proof -
  assume "selected_label \<in> set (map snd (METRIC_LABELS mode_key))"
  then have "filter (\<lambda>kv. snd kv = selected_label) (METRIC_LABELS mode_key) \<noteq> []"
    by (auto simp: filter_empty_conv)
  then obtain kv rest where
    "filter (\<lambda>kv. snd kv = selected_label) (METRIC_LABELS mode_key) = kv # rest"
    by (cases "filter (\<lambda>kv. snd kv = selected_label) (METRIC_LABELS mode_key)") auto
  then have "metric_id_of_label mode_key selected_label = Inr (fst kv)"
    by (simp add: metric_id_of_label_def)
  then show ?thesis using metric_id_of_label_in_options by blast
qed

subsection \<open>The series is always computed\<close>

lemma build_series_total:
  assumes "numbered df" "mode_key = Cumulative \<or> mode_key = Projection"
  shows "\<exists>s. build_series mode_key m df = Inr s \<and> length (y_final s) = length df"
proof -
  obtain ys where ys: "y_values mode_key m df = Inr ys" "length ys = length df"
    using y_values_total [OF assms(1)] by blast
  obtain rs where rs: "roll_y m df = Inr rs"
    using roll_y_form by blast
  from ys rs show ?thesis by (simp add: build_series_def)
qed

subsection \<open>Sorting and numbering the frame\<close>

lemma length_sort_values: "length (sort_values recs) = length recs"
proof -
  have "length (filter (\<lambda>r. gameDate r \<noteq> None) recs) + length (filter (\<lambda>r. \<not> gameDate r \<noteq> None) recs)
      = length recs"
    by (rule sum_length_filter_compl)
  then show ?thesis by (simp add: sort_values_def)
qed

lemma mset_sort_values: "mset (sort_values recs) = mset recs"
proof -
  have "mset (filter (\<lambda>r. gameDate r \<noteq> None) recs) + mset (filter (\<lambda>r. \<not> gameDate r \<noteq> None) recs)
      = mset recs"
    by (induction recs) auto
  then show ?thesis by (simp add: sort_values_def)
qed

lemma sorted_sort_values: "sorted_wrt date_le (map gameDate (sort_values recs))"
proof -
  let ?k = "\<lambda>r. the (gameDate r)"
  let ?S = "sort_key ?k (filter (\<lambda>r. gameDate r \<noteq> None) recs)"
  let ?N = "filter (\<lambda>r. gameDate r = None) recs"
  have some: "\<And>r. r \<in> set ?S \<Longrightarrow> gameDate r \<noteq> None" by simp
  have "sorted (map ?k ?S)" by (rule sorted_sort_key)
  then have "sorted_wrt (\<lambda>a b. ?k a \<le> ?k b) ?S"
    by (simp add: sorted_map)
  then have "sorted_wrt (\<lambda>a b. date_le (gameDate a) (gameDate b)) ?S"
  proof (rule sorted_wrt_mono_rel [rotated])
    fix a b assume "a \<in> set ?S" "b \<in> set ?S" "?k a \<le> ?k b"
    then show "date_le (gameDate a) (gameDate b)"
      using some [of a] some [of b] by (auto simp: date_le_def)
  qed
  then have s: "sorted_wrt date_le (map gameDate ?S)"
    by (simp add: sorted_wrt_map)
  have "\<And>a b. a \<in> set ?N \<Longrightarrow> b \<in> set ?N \<Longrightarrow> date_le (gameDate a) (gameDate b)"
    by (simp add: date_le_def)
  moreover have "sorted_wrt (\<lambda>a b. True) ?N"
    by (simp add: sorted_wrt_iff_nth_less)
  ultimately have "sorted_wrt (\<lambda>a b. date_le (gameDate a) (gameDate b)) ?N"
    by (rule sorted_wrt_mono_rel)
  then have n: "sorted_wrt date_le (map gameDate ?N)"
    by (simp add: sorted_wrt_map)
  have "\<forall>a \<in> set (map gameDate ?S). \<forall>b \<in> set (map gameDate ?N). date_le a b"
    by (auto simp: date_le_def)
  with s n show ?thesis
    unfolding sort_values_def map_append sorted_wrt_append by blast
qed

lemma date_obj_make_row: "date_obj (make_row recs (i, r)) = gameDate r"
  by (simp add: make_row_def)

lemma game_number_make_row: "game_number (make_row recs (i, r)) = i + 1"
  by (simp add: make_row_def)

lemma map_date_obj_rows:
  "map date_obj (map (make_row recs) (enumerate n xs)) = map gameDate xs"
  by (induction xs arbitrary: n) (auto simp: date_obj_make_row)

lemma map_game_number_rows:
  "map game_number (map (make_row recs) (enumerate n xs)) = [Suc n..<Suc (n + length xs)]"
proof (induction xs arbitrary: n)
  case Nil
  then show ?case by simp
next
  case (Cons x xs)
  have "[Suc n..<Suc (n + length (x # xs))] = Suc n # [Suc (Suc n)..<Suc (Suc n + length xs)]"
    by (simp add: upt_conv_Cons del: upt_Suc)
  with Cons [of "Suc n"] show ?case
    by (simp add: game_number_make_row del: upt_Suc)
qed

lemma normalize_log_numbered: "normalize_log recs = Inr df \<Longrightarrow> numbered df"
proof -
  assume "normalize_log recs = Inr df"
  then have df: "df = map (make_row recs) (enumerate 0 (sort_values recs))"
    by (auto simp: normalize_log_def split: if_splits)
  then have "length df = length (sort_values recs)" by simp
  with df show ?thesis
    using map_game_number_rows [of recs 0 "sort_values recs"]
    by (simp add: numbered_def del: upt_Suc)
qed

lemma game_number_number_row: "game_number (number_row r) = game_number r"
  by (simp add: number_row_def)

lemma numbers_of_numbered: "numbers_of df = Some df' \<Longrightarrow> numbered df \<Longrightarrow> numbered df'"
proof -
  assume a: "numbers_of df = Some df'" and n: "numbered df"
  from a have d: "df' = map number_row df"
    by (auto simp: numbers_of_def split: if_splits)
  then have "map game_number df' = map game_number df"
    by (simp add: game_number_number_row)
  with n d show ?thesis by (simp add: numbered_def del: upt_Suc)
qed

text \<open>
  Every frame that reaches the aggregation code is numbered, so the properties below, which
  are stated for numbered frames, apply to it.
\<close>

lemma analysed_frame_numbered:
  "normalize_log recs = Inr rows \<Longrightarrow> numbers_of rows = Some df \<Longrightarrow> numbered df"
  using normalize_log_numbered numbers_of_numbered by blast

subsection \<open>Selections\<close>

text \<open>A selection without a response, or without the key \<open>gameLog\<close>, is passed over.\<close>

lemma load_frame_passed_over:
  "load_frame NoResponse = Inr None \<and> load_frame NoGameLog = Inr None"
  by (simp add: load_frame_def)

lemma load_frames_passed_over:
  "load_frames (NoResponse # responses) = load_frames responses
   \<and> load_frames (NoGameLog # responses) = load_frames responses"
  by (simp add: load_frame_def)

text \<open>\<open>seasons[0]\<close> in \<open>add_player\<close> always exists.\<close>

lemma seasons_of_not_Nil: "seasons_of d \<noteq> []"
  by (simp add: seasons_of_def Let_def)

section \<open>The claims\<close>

subsection \<open>Claim C1: projection mode\<close>

text \<open>
  Claim C1. For a numbered frame in projection mode and every game \<open>g\<close> from 1 to N, the
  series \<open>y_final\<close> and the rolling series \<open>y_rolling\<close> are computed (no exception) and
  plotted against the game numbers 1 to N, the rolling value of the games 1 to 9 is the
  no-value marker \<open>None\<close>, and:
  for the counting metrics points, goals, assists and plusMinus the plotted value is
  \<open>(cum_val[g] / g) * 82\<close> and the rolling value from game 10 on is
  \<open>(window_sum / 10) * 82\<close>, the window being the games \<open>g - 9\<close> to \<open>g\<close>;
  for the rate metrics nothing is multiplied by 82: toi, esToi and shots give
  \<open>cum_val[g] / g\<close> and \<open>window_sum / 10\<close>, shootingPct and evenStrengthPct the guarded
  ratios of the cumulative sums and of the window sums.
\<close>

theorem projection_pace_and_rolling:
  assumes "numbered df" and "1 \<le> g" and "g \<le> length df"
  shows "\<exists>ys rs. y_values Projection m df = Inr ys \<and> roll_y m df = Inr rs
      \<and> build_series Projection m df
          = Inr \<lparr> x_game_number = [1..<Suc (length df)], y_final = ys, y_rolling = Some rs \<rparr>
      \<and> length ys = length df \<and> length rs = length df
      \<and> (g < 10 \<longrightarrow> rs ! (g - 1) = None)
      \<and> (m \<in> set [''points'', ''goals'', ''assists'', ''plusMinus''] \<longrightarrow>
           ys ! (g - 1) = cum_at (stat_val m) df g / of_nat g * 82
           \<and> (10 \<le> g \<longrightarrow> rs ! (g - 1) = Some (window_at (stat_val m) df g / 10 * 82)))
      \<and> (m \<in> set [''toi'', ''esToi'', ''shots''] \<longrightarrow>
           ys ! (g - 1) = cum_at (stat_val m) df g / of_nat g
           \<and> (10 \<le> g \<longrightarrow> rs ! (g - 1) = Some (window_at (stat_val m) df g / 10)))
      \<and> (m = ''shootingPct'' \<longrightarrow>
           ys ! (g - 1) = (if cum_at shots df g > 0
                           then cum_at goals df g / cum_at shots df g * 100 else 0)
           \<and> (10 \<le> g \<longrightarrow> rs ! (g - 1)
                 = Some (if window_at shots df g > 0
                         then window_at goals df g / window_at shots df g * 100 else 0)))
      \<and> (m = ''evenStrengthPct'' \<longrightarrow>
           ys ! (g - 1) = (if cum_at points df g > 0
                           then (cum_at points df g - cum_at special_pts df g)
                                / cum_at points df g * 100
                           else 0)
           \<and> (10 \<le> g \<longrightarrow> rs ! (g - 1)
                 = Some (if window_at points df g > 0
                         then (window_at points df g - window_at special_pts df g)
                              / window_at points df g * 100
                         else 0)))"
proof -
  let ?n = "length df"
  have idx: "g - 1 < ?n" "Suc (g - 1) = g" "[0..<?n] ! (g - 1) = g - 1"
    using assms(2,3) by auto
  obtain ys where ys: "y_values Projection m df = Inr ys" "length ys = ?n"
    using y_values_total [OF assms(1)] by blast
  obtain h where h: "roll_y m df
      = Inr (map (\<lambda>i. if i < 9 then None else Some (h (Suc i))) [0..<?n])"
    using roll_y_form by blast
  define rs where "rs = map (\<lambda>i. if i < 9 then None else Some (h (Suc i))) [0..<?n]"
  have rs: "roll_y m df = Inr rs" "length rs = ?n"
    using h by (simp_all add: rs_def)
  have early: "g < 10 \<longrightarrow> rs ! (g - 1) = None"
    using idx assms(2) by (auto simp: rs_def)
  have counting: "ys ! (g - 1) = cum_at (stat_val m) df g / of_nat g * 82
      \<and> (10 \<le> g \<longrightarrow> rs ! (g - 1) = Some (window_at (stat_val m) df g / 10 * 82))"
    if "m \<in> set [''points'', ''goals'', ''assists'', ''plusMinus'']"
  proof -
    from that have nr: "\<not> is_rate m" by (auto simp: is_rate_def)
    have "ys = map (\<lambda>i. cum_at (stat_val m) df (Suc i) / of_nat (Suc i) * 82) [0..<?n]"
      using y_values_plain_projection [OF assms(1) nr] ys(1) by simp
    moreover have "rs = map (\<lambda>i. if i < 9 then None
                                  else Some (window_at (stat_val m) df (Suc i) / 10 * 82)) [0..<?n]"
      using roll_y_plain [OF nr, of df] rs(1) by simp
    ultimately show ?thesis using idx by (simp del: upt_Suc of_nat_Suc)
  qed
  have per_game: "ys ! (g - 1) = cum_at (stat_val m) df g / of_nat g
      \<and> (10 \<le> g \<longrightarrow> rs ! (g - 1) = Some (window_at (stat_val m) df g / 10))"
    if "m \<in> set [''toi'', ''esToi'', ''shots'']"
  proof -
    from that have "m \<in> set [''toi'', ''esToi''] \<or> (m = ''shots'' \<and> Projection = Projection)"
      by auto
    then have "ys = map (\<lambda>i. cum_at (stat_val m) df (Suc i) / of_nat (Suc i)) [0..<?n]"
      using y_values_per_game [OF assms(1), of m Projection] ys(1) by simp
    moreover have "rs = map (\<lambda>i. if i < 9 then None
                                  else Some (window_at (stat_val m) df (Suc i) / 10)) [0..<?n]"
      using roll_y_per_game [OF that, of df] rs(1) by simp
    ultimately show ?thesis using idx by (simp del: upt_Suc of_nat_Suc)
  qed
  have shooting: "ys ! (g - 1) = (if cum_at shots df g > 0
                           then cum_at goals df g / cum_at shots df g * 100 else 0)
           \<and> (10 \<le> g \<longrightarrow> rs ! (g - 1)
                 = Some (if window_at shots df g > 0
                         then window_at goals df g / window_at shots df g * 100 else 0))"
    if "m = ''shootingPct''"
  proof -
    have "ys = map (\<lambda>i. if cum_at shots df (Suc i) > 0
                      then cum_at goals df (Suc i) / cum_at shots df (Suc i) * 100 else 0)
              [0..<?n]"
      using y_values_shootingPct [of Projection df] ys(1) that by simp
    moreover have "rs = map (\<lambda>i. if i < 9 then None
                      else Some (if window_at shots df (Suc i) > 0
                                 then window_at goals df (Suc i) / window_at shots df (Suc i) * 100
                                 else 0))
              [0..<?n]"
      using roll_y_shootingPct [of df] rs(1) that by simp
    ultimately show ?thesis using idx by (simp del: upt_Suc of_nat_Suc)
  qed
  have even_strength: "ys ! (g - 1) = (if cum_at points df g > 0
                           then (cum_at points df g - cum_at special_pts df g)
                                / cum_at points df g * 100
                           else 0)
           \<and> (10 \<le> g \<longrightarrow> rs ! (g - 1)
                 = Some (if window_at points df g > 0
                         then (window_at points df g - window_at special_pts df g)
                              / window_at points df g * 100
                         else 0))"
    if "m = ''evenStrengthPct''"
  proof -
    have "ys = map (\<lambda>i. if cum_at points df (Suc i) > 0
                      then (cum_at points df (Suc i) - cum_at special_pts df (Suc i))
                           / cum_at points df (Suc i) * 100
                      else 0)
              [0..<?n]"
      using y_values_evenStrengthPct [of Projection df] ys(1) that by simp
    moreover have "rs = map (\<lambda>i. if i < 9 then None
                      else Some (if window_at points df (Suc i) > 0
                                 then (window_at points df (Suc i) - window_at special_pts df (Suc i))
                                      / window_at points df (Suc i) * 100
                                 else 0))
              [0..<?n]"
      using roll_y_evenStrengthPct [of df] rs(1) that by simp
    ultimately show ?thesis using idx by (simp del: upt_Suc of_nat_Suc)
  qed
  have plotted: "build_series Projection m df
      = Inr \<lparr> x_game_number = [1..<Suc (length df)], y_final = ys, y_rolling = Some rs \<rparr>"
    using ys(1) rs(1) assms(1) by (simp add: build_series_def numbered_def del: upt_Suc)
  show ?thesis
    using ys rs plotted early counting per_game shooting even_strength by blast
qed

text \<open>
  Claim C1 on scenario B (eleven games, one point and two shots each) for points, shots and
  evenStrengthPct at the games 1 and 11, and on scenario A for shootingPct at game 2.
\<close>

theorem projection_pace_and_rolling_witness:
  "(\<exists>ys rs. y_values Projection ''points'' scenario_B = Inr ys
       \<and> roll_y ''points'' scenario_B = Inr rs
       \<and> ys ! 0 = 82 \<and> rs ! 0 = None \<and> ys ! 10 = 82 \<and> rs ! 10 = Some 82)
   \<and> (\<exists>ys rs. y_values Projection ''shots'' scenario_B = Inr ys
       \<and> roll_y ''shots'' scenario_B = Inr rs \<and> ys ! 10 = 2 \<and> rs ! 10 = Some 2)
   \<and> (\<exists>ys rs. y_values Projection ''evenStrengthPct'' scenario_B = Inr ys
       \<and> roll_y ''evenStrengthPct'' scenario_B = Inr rs \<and> ys ! 10 = 100 \<and> rs ! 10 = Some 100)
   \<and> (\<exists>ys rs. y_values Projection ''shootingPct'' scenario_A = Inr ys
       \<and> roll_y ''shootingPct'' scenario_A = Inr rs \<and> ys ! 1 = 20 \<and> rs ! 1 = None)"
proof -
  have b: "numbered scenario_B" "(1::nat) \<le> 1" "(1::nat) \<le> length scenario_B"
    "(1::nat) \<le> 11" "(11::nat) \<le> length scenario_B"
    by code_simp+
  have a: "numbered scenario_A" "(1::nat) \<le> 2" "(2::nat) \<le> length scenario_A"
    by code_simp+
  have v: "cum_at (stat_val ''points'') scenario_B 1 = 1"
    "cum_at (stat_val ''points'') scenario_B 11 = 11"
    "window_at (stat_val ''points'') scenario_B 11 = 10"
    "cum_at (stat_val ''shots'') scenario_B 11 = 22"
    "window_at (stat_val ''shots'') scenario_B 11 = 20"
    "cum_at points scenario_B 11 = 11" "cum_at special_pts scenario_B 11 = 0"
    "window_at points scenario_B 11 = 10" "window_at special_pts scenario_B 11 = 0"
    "cum_at shots scenario_A 2 = 5" "cum_at goals scenario_A 2 = 1"
    by code_simp+
  have p1: "\<exists>ys rs. y_values Projection ''points'' scenario_B = Inr ys
       \<and> roll_y ''points'' scenario_B = Inr rs
       \<and> ys ! 0 = 82 \<and> rs ! 0 = None \<and> ys ! 10 = 82 \<and> rs ! 10 = Some 82"
    using projection_pace_and_rolling [OF b(1) b(2) b(3), of "''points''"]
      projection_pace_and_rolling [OF b(1) b(4) b(5), of "''points''"] v
    by auto
  have p2: "\<exists>ys rs. y_values Projection ''shots'' scenario_B = Inr ys
       \<and> roll_y ''shots'' scenario_B = Inr rs \<and> ys ! 10 = 2 \<and> rs ! 10 = Some 2"
    using projection_pace_and_rolling [OF b(1) b(4) b(5), of "''shots''"] v by auto
  have p3: "\<exists>ys rs. y_values Projection ''evenStrengthPct'' scenario_B = Inr ys
       \<and> roll_y ''evenStrengthPct'' scenario_B = Inr rs \<and> ys ! 10 = 100 \<and> rs ! 10 = Some 100"
    using projection_pace_and_rolling [OF b(1) b(4) b(5), of "''evenStrengthPct''"] v by auto
  have p4: "\<exists>ys rs. y_values Projection ''shootingPct'' scenario_A = Inr ys
       \<and> roll_y ''shootingPct'' scenario_A = Inr rs \<and> ys ! 1 = 20 \<and> rs ! 1 = None"
    using projection_pace_and_rolling [OF a(1) a(2) a(3), of "''shootingPct''"] v by auto
  from p1 p2 p3 p4 show ?thesis by blast
qed

subsection \<open>Claim C2: rate metrics from cumulative sums\<close>

text \<open>
  Claim C2. In every mode and for every game \<open>g\<close> of a frame, shootingPct and
  evenStrengthPct are computed without a division by zero or any other exception; the
  value is 0 whenever the cumulative divisor (shots, points) is 0; and where shots
  (points) are counts, that is never negative, the value otherwise is
  \<open>cum_goals[g] / cum_shots[g] * 100\<close>, respectively
  \<open>(cum_points[g] - cum_special_pts[g]) / cum_points[g] * 100\<close>.
\<close>

theorem rate_metrics_from_cumulative_sums:
  assumes "1 \<le> g" and "g \<le> length df"
  shows "\<exists>ys zs. y_values mode_key ''shootingPct'' df = Inr ys
      \<and> y_values mode_key ''evenStrengthPct'' df = Inr zs
      \<and> length ys = length df \<and> length zs = length df
      \<and> (cum_at shots df g = 0 \<longrightarrow> ys ! (g - 1) = 0)
      \<and> (cum_at points df g = 0 \<longrightarrow> zs ! (g - 1) = 0)
      \<and> ((\<forall>r \<in> set df. 0 \<le> shots r) \<and> cum_at shots df g \<noteq> 0 \<longrightarrow>
            ys ! (g - 1) = cum_at goals df g / cum_at shots df g * 100)
      \<and> ((\<forall>r \<in> set df. 0 \<le> points r) \<and> cum_at points df g \<noteq> 0 \<longrightarrow>
            zs ! (g - 1) = (cum_at points df g - cum_at special_pts df g)
                           / cum_at points df g * 100)"
proof -
  let ?n = "length df"
  let ?ys = "map (\<lambda>i. if cum_at shots df (Suc i) > 0
                      then cum_at goals df (Suc i) / cum_at shots df (Suc i) * 100 else 0)
              [0..<?n]"
  let ?zs = "map (\<lambda>i. if cum_at points df (Suc i) > 0
                      then (cum_at points df (Suc i) - cum_at special_pts df (Suc i))
                           / cum_at points df (Suc i) * 100
                      else 0)
              [0..<?n]"
  have idx: "g - 1 < ?n" "Suc (g - 1) = g" "[0..<?n] ! (g - 1) = g - 1"
    using assms by auto
  have ys: "?ys ! (g - 1) = (if cum_at shots df g > 0
                             then cum_at goals df g / cum_at shots df g * 100 else 0)"
    using idx by (simp del: upt_Suc)
  have zs: "?zs ! (g - 1) = (if cum_at points df g > 0
                             then (cum_at points df g - cum_at special_pts df g)
                                  / cum_at points df g * 100
                             else 0)"
    using idx by (simp del: upt_Suc)
  have s_pos: "0 < cum_at shots df g" if "\<forall>r \<in> set df. 0 \<le> shots r" "cum_at shots df g \<noteq> 0"
    using cum_at_nonneg [OF that(1) assms(2)] that(2) by simp
  have p_pos: "0 < cum_at points df g" if "\<forall>r \<in> set df. 0 \<le> points r" "cum_at points df g \<noteq> 0"
    using cum_at_nonneg [OF that(1) assms(2)] that(2) by simp
  have "y_values mode_key ''shootingPct'' df = Inr ?ys"
    by (rule y_values_shootingPct)
  moreover have "y_values mode_key ''evenStrengthPct'' df = Inr ?zs"
    by (rule y_values_evenStrengthPct)
  moreover have "length ?ys = ?n" "length ?zs = ?n" by simp_all
  moreover have "cum_at shots df g = 0 \<longrightarrow> ?ys ! (g - 1) = 0"
    using ys by simp
  moreover have "cum_at points df g = 0 \<longrightarrow> ?zs ! (g - 1) = 0"
    using zs by simp
  moreover have "(\<forall>r \<in> set df. 0 \<le> shots r) \<and> cum_at shots df g \<noteq> 0 \<longrightarrow>
      ?ys ! (g - 1) = cum_at goals df g / cum_at shots df g * 100"
    using ys s_pos by simp
  moreover have "(\<forall>r \<in> set df. 0 \<le> points r) \<and> cum_at points df g \<noteq> 0 \<longrightarrow>
      ?zs ! (g - 1) = (cum_at points df g - cum_at special_pts df g) / cum_at points df g * 100"
    using zs p_pos by simp
  ultimately show ?thesis by blast
qed

text \<open>
  Claim C2 on scenario A of the specification: 33.33 and 20.0 for the shooting percentage.
\<close>

theorem rate_metrics_from_cumulative_sums_witness:
  "\<exists>ys zs. y_values Cumulative ''shootingPct'' scenario_A = Inr ys
      \<and> y_values Cumulative ''evenStrengthPct'' scenario_A = Inr zs
      \<and> ys ! 0 = 100 / 3 \<and> ys ! 1 = 20 \<and> zs ! 1 = 100"
proof -
  have n: "(1::nat) \<le> 1" "(1::nat) \<le> 2" "(1::nat) \<le> length scenario_A"
    "(2::nat) \<le> length scenario_A"
    by (simp_all add: scenario_A_def)
  have nonneg: "\<forall>r \<in> set scenario_A. 0 \<le> shots r" "\<forall>r \<in> set scenario_A. 0 \<le> points r"
    by (simp_all add: scenario_A_def example_row_def)
  have v: "cum_at shots scenario_A 1 = 3" "cum_at goals scenario_A 1 = 1"
    "cum_at shots scenario_A 2 = 5" "cum_at goals scenario_A 2 = 1"
    "cum_at points scenario_A 2 = 1" "cum_at special_pts scenario_A 2 = 0"
    by code_simp+
  from rate_metrics_from_cumulative_sums [OF n(1) n(3), of Cumulative]
    rate_metrics_from_cumulative_sums [OF n(2) n(4), of Cumulative]
  show ?thesis using nonneg v by auto
qed

subsection \<open>Claim C3: the buckets of a distribution summary\<close>

text \<open>
  Claim C3. In the totals of a frame the even-strength, power-play and shorthanded buckets
  add up to the season total for goals, for points and for assists, where the assists of
  a special-teams bucket are its points minus its goals and the even-strength assists are
  the total assists minus the two.
\<close>

theorem distribution_buckets_sum:
  "es_goals (season_totals df) + pp_goals (season_totals df) + sh_goals (season_totals df)
     = total_goals (season_totals df)
   \<and> es_points (season_totals df) + pp_points (season_totals df) + sh_points (season_totals df)
     = total_points (season_totals df)
   \<and> es_assists (season_totals df) + pp_assists (season_totals df) + sh_assists (season_totals df)
     = total_assists (season_totals df)
   \<and> pp_assists (season_totals df) = pp_points (season_totals df) - pp_goals (season_totals df)
   \<and> sh_assists (season_totals df) = sh_points (season_totals df) - sh_goals (season_totals df)
   \<and> es_assists (season_totals df)
     = total_assists (season_totals df) - pp_assists (season_totals df) - sh_assists (season_totals df)
   \<and> total_goals (season_totals df) = sum_list (map goals df)
   \<and> total_points (season_totals df) = sum_list (map points df)
   \<and> total_assists (season_totals df) = sum_list (map assists df)"
  by (simp add: season_totals_def Let_def)

text \<open>
  Claim C3 on scenario C of the specification: 13 even-strength goals, 24 even-strength assists.
\<close>

theorem distribution_buckets_sum_witness:
  "es_goals (season_totals
      [\<lparr> date_obj = Some 1704412800, game_number = 1, toi_val = 0, pp_toi_val = 0, sh_toi_val = 0,
         goals = 20, assists = 30, points = 50, shots = 160, plusMinus = 4, powerPlayPoints = 10,
         shorthandedPoints = 3, powerPlayGoals = 5, shorthandedGoals = 2 \<rparr>]) = 13
   \<and> es_assists (season_totals
      [\<lparr> date_obj = Some 1704412800, game_number = 1, toi_val = 0, pp_toi_val = 0, sh_toi_val = 0,
         goals = 20, assists = 30, points = 50, shots = 160, plusMinus = 4, powerPlayPoints = 10,
         shorthandedPoints = 3, powerPlayGoals = 5, shorthandedGoals = 2 \<rparr>]) = 24"
  using distribution_buckets_sum
    [of "[\<lparr> date_obj = Some 1704412800, game_number = 1, toi_val = 0, pp_toi_val = 0,
            sh_toi_val = 0, goals = 20, assists = 30, points = 50, shots = 160, plusMinus = 4,
            powerPlayPoints = 10, shorthandedPoints = 3, powerPlayGoals = 5,
            shorthandedGoals = 2 \<rparr>]"]
  by (simp add: season_totals_def)

subsection \<open>Claim C4: sorted by date, numbered 1 to N\<close>

text \<open>
  Claim C4. For a raw game log that has the columns \<open>gameDate\<close> and \<open>toi\<close> (so it is not
  empty) the frame is built, has one row per record, its game numbers are exactly
  1, 2, ..., N in row order (contiguous, strictly increasing, without duplicates), its dates
  are in ascending order (a missing date last), and they are the dates of the log.
\<close>

theorem normalized_sorted_and_numbered:
  assumes "has_column gameDate recs" and "has_column toi recs"
  shows "\<exists>df. normalize_log recs = Inr df \<and> length df = length recs
      \<and> map game_number df = [1..<Suc (length recs)]
      \<and> distinct (map game_number df)
      \<and> sorted_wrt date_le (map date_obj df)
      \<and> mset (map date_obj df) = mset (map gameDate recs)"
proof -
  let ?df = "map (make_row recs) (enumerate 0 (sort_values recs))"
  have "normalize_log recs = Inr ?df"
    using assms by (simp add: normalize_log_def)
  moreover have "length ?df = length recs"
    by (simp add: length_sort_values)
  moreover have num: "map game_number ?df = [1..<Suc (length recs)]"
    using map_game_number_rows [of recs 0 "sort_values recs"]
    by (simp add: length_sort_values del: upt_Suc)
  moreover have "distinct (map game_number ?df)"
    by (simp only: num distinct_upt)
  moreover have "sorted_wrt date_le (map date_obj ?df)"
    by (simp only: map_date_obj_rows sorted_sort_values)
  moreover have "mset (map date_obj ?df) = mset (map gameDate recs)"
    by (simp only: map_date_obj_rows mset_map mset_sort_values)
  ultimately show ?thesis by blast
qed

text \<open>
  Claim C4 on a log of three records delivered out of order.
\<close>

theorem normalized_sorted_and_numbered_witness:
  "\<exists>df. normalize_log example_log = Inr df \<and> map game_number df = [1, 2, 3]
      \<and> map date_obj df = [Some 1704412800, Some 1704585600, Some 1704844800]"
proof -
  have c: "has_column gameDate example_log" "has_column toi example_log"
    by (simp_all add: has_column_def example_log_def)
  have l: "[1..<Suc (length example_log)] = [1, 2, 3]"
    by (simp add: example_log_def)
  from normalized_sorted_and_numbered [OF c] obtain df where
    df: "normalize_log example_log = Inr df" "map game_number df = [1..<Suc (length example_log)]"
    by blast
  have "map gameDate (sort_values example_log)
      = [Some 1704412800, Some 1704585600, Some 1704844800]"
    by (simp add: sort_values_def example_log_def)
  then have "map date_obj (map (make_row example_log) (enumerate 0 (sort_values example_log)))
      = [Some 1704412800, Some 1704585600, Some 1704844800]"
    by (simp only: map_date_obj_rows)
  moreover have "normalize_log example_log
      = Inr (map (make_row example_log) (enumerate 0 (sort_values example_log)))"
    using c by (simp add: normalize_log_def)
  ultimately show ?thesis using df l by auto
qed

subsection \<open>Claim C5: cumulative series do not decrease\<close>

text \<open>
  Claim C5. In cumulative mode, for a metric of that mode whose per-game scalar is not
  negative in any game, the series is computed and \<open>y_final[g] \<le> y_final[g + 1]\<close> for
  every \<open>g\<close> from 1 to N - 1.
\<close>

theorem cumulative_series_nondecreasing:
  assumes "m \<in> set (METRIC_OPTIONS Cumulative)" and "\<forall>r \<in> set df. 0 \<le> stat_val m r"
  shows "\<exists>ys. y_values Cumulative m df = Inr ys \<and> length ys = length df
      \<and> (\<forall>g. 1 \<le> g \<and> g < length df \<longrightarrow> ys ! (g - 1) \<le> ys ! g)"
proof -
  let ?ys = "map (\<lambda>i. cum_at (stat_val m) df (Suc i)) [0..<length df]"
  from assms(1) have "m \<notin> set [''shootingPct'', ''evenStrengthPct'', ''toi'', ''esToi'']"
    by (auto simp: METRIC_OPTIONS_def)
  then have ys: "y_values Cumulative m df = Inr ?ys"
    by (rule y_values_plain_cumulative)
  have "?ys ! (g - 1) \<le> ?ys ! g" if "1 \<le> g" "g < length df" for g
  proof -
    have "df ! g \<in> set df" using that by simp
    then have "0 \<le> stat_val m (df ! g)" using assms(2) by blast
    moreover have "?ys ! g = cum_at (stat_val m) df g + stat_val m (df ! g)"
      using that by (simp add: cum_at_Suc del: upt_Suc)
    moreover have "?ys ! (g - 1) = cum_at (stat_val m) df g"
    proof -
      have "g - 1 < length df" "[0..<length df] ! (g - 1) = g - 1" "Suc (g - 1) = g"
        using that by auto
      then show ?thesis by (simp del: upt_Suc)
    qed
    ultimately show ?thesis by simp
  qed
  then have mono: "\<forall>g. 1 \<le> g \<and> g < length df \<longrightarrow> ?ys ! (g - 1) \<le> ?ys ! g"
    by blast
  have "length ?ys = length df" by simp
  with ys mono show ?thesis by blast
qed

text \<open>
  Claim C5 for the shots of scenario A.
\<close>

theorem cumulative_series_nondecreasing_witness:
  "\<exists>ys. y_values Cumulative ''shots'' scenario_A = Inr ys \<and> ys ! 0 \<le> ys ! 1"
proof -
  have "''shots'' \<in> set (METRIC_OPTIONS Cumulative)"
    by (simp add: METRIC_OPTIONS_def)
  moreover have "\<forall>r \<in> set scenario_A. 0 \<le> stat_val ''shots'' r"
    by (simp add: scenario_A_def example_row_def stat_val_def)
  ultimately obtain ys where ys: "y_values Cumulative ''shots'' scenario_A = Inr ys"
    "\<forall>g. 1 \<le> g \<and> g < length scenario_A \<longrightarrow> ys ! (g - 1) \<le> ys ! g"
    using cumulative_series_nondecreasing [of "''shots''" scenario_A] by blast
  from ys(2) have "ys ! (1 - 1) \<le> ys ! 1"
    by (simp add: scenario_A_def)
  with ys(1) show ?thesis by auto
qed

subsection \<open>Claim C6: absent fields\<close>

text \<open>
  Claim C6 says that an absent field is defaulted and never raises. A log whose records
  have no \<open>toi\<close> key makes line 244 raise KeyError, while the two other clock columns are
  read through \<open>df.get\<close> with a default.
\<close>

theorem missing_toi_raises:
  "normalize_log [\<lparr> gameDate = Some 1704412800, toi = None, powerPlayToi = Some ''01:12'',
       shorthandedToi = None, numeric = [(''goals'', 1), (''points'', 1)] \<rparr>]
     = Inl (KeyError ''toi'')"
  by (simp add: normalize_log_def has_column_def)

subsection \<open>Claim C7: a season of zero games\<close>

text \<open>
  Claim C7 says that a season of zero games is left out without an error. The response
  \<open>{'gameLog': []}\<close> passes the guard of line 238, the frame built from it has no columns,
  and line 240 raises KeyError, which ends the run.
\<close>

theorem zero_game_season_raises:
  "load_frames [GameLog []] = Inl (KeyError ''gameDate'')"
  by (simp add: load_frame_def normalize_log_def has_column_def)

subsection \<open>Claim C9: the contract of parse_toi\<close>

text \<open>
  Claim C9, as the code has it, for ASCII texts. \<open>parse_toi\<close> is a total function: every
  exception of its body ends in the value 0. It returns 0 for a missing or empty value;
  \<open>MM + SS/60\<close>, which is not negative, for every text \<open>MM:SS\<close> whose two parts are non-empty
  strings of at most 300 decimal digits; more generally \<open>m + n/60\<close> whenever the text splits
  at its colons into exactly two parts that \<open>int\<close> reads as \<open>m\<close> and \<open>n\<close>, both below
  \<open>2^1023\<close> in magnitude; and 0 for every other text: one whose part is too large to become
  a float, one that does not split into exactly two parts, one with a part that \<open>int\<close>
  rejects, and so any text holding a character other than digits, colon, sign, underscore
  and white space. The result is not negative for any text without a minus sign.
\<close>

theorem parse_toi_contract:
  "parse_toi None = 0 \<and> parse_toi (Some []) = 0
   \<and> (mm \<noteq> [] \<and> ss \<noteq> [] \<and> list_all is_digit mm \<and> list_all is_digit ss
        \<and> length mm \<le> 300 \<and> length ss \<le> 300 \<longrightarrow>
        parse_toi (Some (mm @ '':'' @ ss)) = of_nat (decimal mm) + of_nat (decimal ss) / 60
        \<and> 0 \<le> parse_toi (Some (mm @ '':'' @ ss)))
   \<and> (split_on CHR '':'' s1 = [a, b] \<and> py_int a = Some m \<and> py_int b = Some n
        \<and> \<bar>m\<bar> < 2 ^ 1023 \<and> \<bar>n\<bar> < 2 ^ 1023 \<longrightarrow>
        parse_toi (Some s1) = of_int m + of_int n / 60)
   \<and> (split_on CHR '':'' s6 = [a2, b2] \<and> py_int a2 = Some m2 \<and> py_int b2 = Some n2
        \<and> (\<not> float_convertible m2 \<or> \<not> float_convertible n2) \<longrightarrow>
        parse_toi (Some s6) = 0)
   \<and> (length (split_on CHR '':'' s2) \<noteq> 2 \<longrightarrow> parse_toi (Some s2) = 0)
   \<and> (list_all is_ascii s3 \<and> p \<in> set (split_on CHR '':'' s3) \<and> py_int p = None \<longrightarrow>
        parse_toi (Some s3) = 0)
   \<and> (list_all is_ascii s4 \<and> c \<in> set s4
        \<and> \<not> (is_digit c \<or> is_space c \<or> c \<in> set ''+-_:'') \<longrightarrow>
        parse_toi (Some s4) = 0)
   \<and> (list_all is_ascii s5 \<and> CHR ''-'' \<notin> set s5 \<longrightarrow> 0 \<le> parse_toi (Some s5))"
proof -
  have digits: "mm \<noteq> [] \<and> ss \<noteq> [] \<and> list_all is_digit mm \<and> list_all is_digit ss
        \<and> length mm \<le> 300 \<and> length ss \<le> 300 \<longrightarrow>
        parse_toi (Some (mm @ '':'' @ ss)) = of_nat (decimal mm) + of_nat (decimal ss) / 60
        \<and> 0 \<le> parse_toi (Some (mm @ '':'' @ ss))"
    using parse_toi_digits [of mm ss] by auto
  have missing: "parse_toi None = 0 \<and> parse_toi (Some []) = 0"
    by (simp add: parse_toi_def)
  have two: "split_on CHR '':'' s1 = [a, b] \<and> py_int a = Some m \<and> py_int b = Some n
        \<and> \<bar>m\<bar> < 2 ^ 1023 \<and> \<bar>n\<bar> < 2 ^ 1023 \<longrightarrow>
        parse_toi (Some s1) = of_int m + of_int n / 60"
    using parse_toi_two_parts [of s1 a b m n] float_convertible_below by blast
  have over: "split_on CHR '':'' s6 = [a2, b2] \<and> py_int a2 = Some m2 \<and> py_int b2 = Some n2
        \<and> (\<not> float_convertible m2 \<or> \<not> float_convertible n2) \<longrightarrow>
        parse_toi (Some s6) = 0"
    using parse_toi_overflow [of s6 a2 b2 m2 n2] by blast
  from missing digits two over show ?thesis
    using parse_toi_wrong_count [of s2] parse_toi_bad_part [of p s3]
      parse_toi_bad_char [of c s4] parse_toi_no_minus [of s5]
    by blast
qed

text \<open>
  The contract at concrete clock texts, one for each of its cases; the text of the overflow
  case has 309 nines for its minutes.
\<close>

theorem parse_toi_contract_witness:
  "parse_toi (Some ''18:32'') = 18 + 32 / 60 \<and> parse_toi (Some '' +7:1_5'') = 7 + 15 / 60
   \<and> parse_toi (Some (replicate 309 CHR ''9'' @ '':00'')) = 0
   \<and> parse_toi (Some ''1832'') = 0 \<and> parse_toi (Some ''18:'') = 0
   \<and> parse_toi (Some ''18m32'') = 0 \<and> 0 \<le> parse_toi (Some ''+18:32'')"
proof -
  have d: "''18'' \<noteq> []" "''32'' \<noteq> []" "list_all is_digit ''18''" "list_all is_digit ''32''"
    "length ''18'' \<le> 300" "length ''32'' \<le> 300"
    "rat_of_nat (decimal ''18'') = 18" "rat_of_nat (decimal ''32'') = 32"
    by (simp_all add: is_digit_def decimal_def digit_val_def)
  have t: "split_on CHR '':'' '' +7:1_5'' = ['' +7'', ''1_5'']"
    "py_int '' +7'' = Some 7" "py_int ''1_5'' = Some 15"
    "\<bar>7::int\<bar> < 2 ^ 1023" "\<bar>15::int\<bar> < 2 ^ 1023"
    by (simp_all add: py_int_def strip_def is_space_def unsigned_int_def is_digit_def
        digit_val_def max_str_digits_def)
  have o: "split_on CHR '':'' (replicate 309 CHR ''9'' @ '':00'') = [replicate 309 CHR ''9'', ''00'']"
    "py_int (replicate 309 CHR ''9'') = Some (10 ^ 309 - 1)" "py_int ''00'' = Some 0"
    "\<not> float_convertible (10 ^ 309 - 1)"
  proof -
    have "CHR '':'' \<notin> set (replicate 309 CHR ''9'')" by simp
    then show "split_on CHR '':'' (replicate 309 CHR ''9'' @ '':00'') = [replicate 309 CHR ''9'', ''00'']"
      by (simp add: split_on_first_sep)
    have "replicate 309 CHR ''9'' \<noteq> []" "length (replicate 309 CHR ''9'') \<le> max_str_digits"
      by (simp_all add: max_str_digits_def)
    then have "py_int (replicate 309 CHR ''9'') = Some (int (decimal (replicate 309 CHR ''9'')))"
      using nines_digits [of 309] by (intro py_int_digits)
    then show "py_int (replicate 309 CHR ''9'') = Some (10 ^ 309 - 1)"
      by (simp only: decimal_nines)
    show "py_int ''00'' = Some 0"
      by (simp add: py_int_def strip_def is_space_def unsigned_int_def is_digit_def
          digit_val_def max_str_digits_def)
    show "\<not> float_convertible (10 ^ 309 - 1)"
      by (simp add: float_convertible_def)
  qed
  have w: "length (split_on CHR '':'' ''1832'') \<noteq> 2"
    by simp
  have b: "list_all is_ascii ''18:''" "[] \<in> set (split_on CHR '':'' ''18:'')" "py_int [] = None"
    by (simp_all add: is_ascii_def py_int_def strip_def)
  have c: "list_all is_ascii ''18m32''" "CHR ''m'' \<in> set ''18m32''"
    "\<not> (is_digit CHR ''m'' \<or> is_space CHR ''m'' \<or> CHR ''m'' \<in> set ''+-_:'')"
    by (simp_all add: is_ascii_def is_digit_def is_space_def)
  have n: "list_all is_ascii ''+18:32''" "CHR ''-'' \<notin> set ''+18:32''"
    by (simp_all add: is_ascii_def)
  from parse_toi_contract [where mm = "''18''" and ss = "''32''" and ?s1.0 = "'' +7:1_5''"
      and a = "'' +7''" and b = "''1_5''" and m = 7 and n = 15
      and ?s6.0 = "replicate 309 CHR ''9'' @ '':00''" and ?a2.0 = "replicate 309 CHR ''9''"
      and ?b2.0 = "''00''" and ?m2.0 = "10 ^ 309 - 1" and ?n2.0 = 0
      and ?s2.0 = "''1832''" and ?s3.0 = "''18:''" and p = "[]"
      and ?s4.0 = "''18m32''" and c = "CHR ''m''" and ?s5.0 = "''+18:32''"]
  show ?thesis using d t o w b c n by simp
qed

text \<open>
  Claim C9 as stated says that the result is never negative and that every malformed text
  gives 0.0. \<open>int\<close> accepts a sign, so the text \<open>-5:30\<close> gives \<open>-5 + 30/60 = -4.5\<close>.
\<close>

theorem parse_toi_nonnegative_counterexample: "parse_toi (Some ''-5:30'') < 0"
  by (simp add: parse_toi_def toi_minutes_def py_int_def strip_def is_space_def unsigned_int_def
      is_digit_def digit_val_def max_str_digits_def float_convertible_def)

subsection \<open>Claim C10: add_player leaves the list alone on error\<close>

text \<open>
  Claim C10. When the list already holds three (or more) selections, or the fetch of the
  player details yields no data, \<open>add_player\<close> returns the list it was given, unchanged,
  and shows a notice.
\<close>

theorem add_player_unchanged_on_error:
  "length players \<ge> 3 \<or> get_player_details (playerId player_data) = None \<Longrightarrow>
     snd (add_player get_player_details now players player_data) = players
     \<and> fst (add_player get_player_details now players player_data) \<noteq> None"
  by (auto simp: add_player_def)

text \<open>
  Claim C10 for a failed fetch on the empty list and for a full list of three.
\<close>

theorem add_player_unchanged_on_error_witness:
  "snd (add_player Map.empty 1 []
      \<lparr> playerId = 8478402, name = Some ''Connor McDavid'', teamAbbrev = Some ''EDM'' \<rparr>) = []
   \<and> snd (add_player (\<lambda>i. Some \<lparr> seasonTotals = None, seasonId = Some 20232024 \<rparr>) 1
       (replicate 3 \<lparr> player_id = 8477934, player_name = ''Leon Draisaitl'', team = ''EDM'',
                       selected_season = 20232024, available_seasons = [20232024],
                       color_idx = 0, instance_id = 0 \<rparr>)
       \<lparr> playerId = 8478402, name = Some ''Connor McDavid'', teamAbbrev = Some ''EDM'' \<rparr>)
     = replicate 3 \<lparr> player_id = 8477934, player_name = ''Leon Draisaitl'', team = ''EDM'',
                       selected_season = 20232024, available_seasons = [20232024],
                       color_idx = 0, instance_id = 0 \<rparr>"
  using add_player_unchanged_on_error [of "[]" Map.empty
      "\<lparr> playerId = 8478402, name = Some ''Connor McDavid'', teamAbbrev = Some ''EDM'' \<rparr>" 1]
    add_player_unchanged_on_error
      [of "replicate 3 \<lparr> player_id = 8477934, player_name = ''Leon Draisaitl'', team = ''EDM'',
                          selected_season = 20232024, available_seasons = [20232024],
                          color_idx = 0, instance_id = 0 \<rparr>"
          "\<lambda>i. Some \<lparr> seasonTotals = None, seasonId = Some 20232024 \<rparr>"
          "\<lparr> playerId = 8478402, name = Some ''Connor McDavid'', teamAbbrev = Some ''EDM'' \<rparr>" 1]
  by simp

end
